theory Spec2Isabelle
  imports Main "HOL-Library.Sublist"
begin

section \<open>JavaScript strings\<close>

text \<open>
  A JavaScript string is a sequence of UTF-16 code units; a code unit is modelled as a
  natural number. \<open>str\<close> injects an ASCII literal of the source.
\<close>

type_synonym jsstring = "nat list"

definition str :: "string \<Rightarrow> jsstring" where
  "str s = map of_char s"

text \<open>\<^verbatim>\<open>s.startsWith(p)\<close>, \<^verbatim>\<open>s.includes(n)\<close> and \<^verbatim>\<open>s.endsWith(p)\<close>: case-sensitive
  comparisons of code units.\<close>

fun startsWith :: "jsstring \<Rightarrow> jsstring \<Rightarrow> bool" where
  "startsWith s [] = True"
| "startsWith [] (p # ps) = False"
| "startsWith (c # cs) (p # ps) = (c = p \<and> startsWith cs ps)"

fun includesStr :: "jsstring \<Rightarrow> jsstring \<Rightarrow> bool" where
  "includesStr [] n = (n = [])"
| "includesStr (c # cs) n = (startsWith (c # cs) n \<or> includesStr cs n)"

definition endsWith :: "jsstring \<Rightarrow> jsstring \<Rightarrow> bool" where
  "endsWith s p = startsWith (rev s) (rev p)"

text \<open>The class \<^verbatim>\<open>\s\<close> of a regular expression, which is also what \<^verbatim>\<open>trim()\<close> strips:
  ECMAScript's WhiteSpace and LineTerminator code points. \<^verbatim>\<open>\d\<close> is \<^verbatim>\<open>[0-9]\<close>.\<close>

definition isWhiteSpace :: "nat \<Rightarrow> bool" where
  "isWhiteSpace c =
     (c = 9 \<or> c = 10 \<or> c = 11 \<or> c = 12 \<or> c = 13 \<or> c = 32 \<or> c = 160 \<or> c = 5760
      \<or> (8192 \<le> c \<and> c \<le> 8202) \<or> c = 8232 \<or> c = 8233 \<or> c = 8239 \<or> c = 8287
      \<or> c = 12288 \<or> c = 65279)"

definition isDigit :: "nat \<Rightarrow> bool" where
  "isDigit c = (48 \<le> c \<and> c \<le> 57)"

definition isAlnum :: "nat \<Rightarrow> bool" where
  "isAlnum c = ((97 \<le> c \<and> c \<le> 122) \<or> (65 \<le> c \<and> c \<le> 90) \<or> (48 \<le> c \<and> c \<le> 57))"

definition trim :: "jsstring \<Rightarrow> jsstring" where
  "trim s = rev (dropWhile isWhiteSpace (rev (dropWhile isWhiteSpace s)))"

section \<open>The progress pattern of runYtDlp\<close>

text \<open>
  \<^verbatim>\<open>outputString.match(/\[download\]\s+(\d+\.\d+)% of/)\<close> (server.js, line 46).
  \<open>stripLiteral\<close> consumes a literal, \<open>matchHere\<close> runs the pattern anchored at the
  start of its argument and returns capture group 1. The classes \<^verbatim>\<open>\s\<close>, \<^verbatim>\<open>\d\<close> and the
  literals that follow them are disjoint, so the greedy quantifiers never give back a
  character. \<open>progressMatch\<close> tries every start position from the left, as \<^verbatim>\<open>match\<close>
  does for a regular expression without the \<^verbatim>\<open>g\<close> flag.
\<close>

fun stripLiteral :: "jsstring \<Rightarrow> jsstring \<Rightarrow> jsstring option" where
  "stripLiteral [] s = Some s"
| "stripLiteral (p # ps) [] = None"
| "stripLiteral (p # ps) (c # cs) = (if c = p then stripLiteral ps cs else None)"

definition matchHere :: "jsstring \<Rightarrow> jsstring option" where
  "matchHere s =
     (case stripLiteral (str ''[download]'') s of
        None \<Rightarrow> None
      | Some r1 \<Rightarrow>
          (let ws = takeWhile isWhiteSpace r1; r2 = dropWhile isWhiteSpace r1;
               d1 = takeWhile isDigit r2; r3 = dropWhile isDigit r2
           in if ws = [] \<or> d1 = [] then None
              else (case r3 of
                      [] \<Rightarrow> None
                    | c # r4 \<Rightarrow>
                        if c \<noteq> 46 then None
                        else (let d2 = takeWhile isDigit r4; r5 = dropWhile isDigit r4
                              in if d2 = [] then None
                                 else if startsWith r5 (str ''% of'')
                                      then Some (d1 @ [46] @ d2) else None))))"

fun progressMatch :: "jsstring \<Rightarrow> jsstring option" where
  "progressMatch [] = matchHere []"
| "progressMatch (c # cs) =
     (case matchHere (c # cs) of Some m \<Rightarrow> Some m | None \<Rightarrow> progressMatch cs)"

section \<open>Updates, the socket and the staging files\<close>

text \<open>
  The objects handed to \<^verbatim>\<open>sendProgress\<close>. A percentage is either a number literal of the
  source or \<^verbatim>\<open>parseFloat\<close> of the matched text, kept as that text.
\<close>

datatype number = Num nat | ParseFloat jsstring

datatype update =
    Status jsstring nat
  | Progress number
  | ErrorUpdate jsstring
  | DownloadReady jsstring nat jsstring

datatype readyState = CONNECTING | OPEN | CLOSING | CLOSED

text \<open>
  The state a message handler works on. \<open>files\<close> maps a path to the bytes of the regular
  file there. \<open>socket n\<close> is \<^verbatim>\<open>ws.readyState\<close> at the moment \<open>n\<close> calls of the send helper
  have been made: the peer, not the handler, decides it. \<open>sent\<close> is what \<^verbatim>\<open>ws.send\<close> put
  on the wire (the JSON encoding is left out). \<open>calls\<close> is a history of the run that
  the code does not keep: every update handed to the helper, in call order; its length
  is the time at which the socket is read.
\<close>

type_synonym fs = "jsstring \<rightharpoonup> nat list"

record state =
  files :: fs
  socket :: "nat \<Rightarrow> readyState"
  calls :: "update list"
  sent :: "update list"

text \<open>\<^verbatim>\<open>sendProgress\<close> (lines 136-140).\<close>

definition sendProgress :: "update \<Rightarrow> state \<Rightarrow> state" where
  "sendProgress u s =
     (let s' = s\<lparr>calls := calls s @ [u]\<rparr>
      in if socket s (length (calls s)) = OPEN then s'\<lparr>sent := sent s @ [u]\<rparr> else s')"

section \<open>External processes\<close>

text \<open>
  One run of an external tool, as the handlers of \<^verbatim>\<open>spawn\<close> see it: the data chunks of
  both streams in arrival order, the exit code passed to \<^verbatim>\<open>close\<close> (\<open>None\<close> is \<^verbatim>\<open>null\<close>, a
  run ended by a signal) and what the run did to the files. Every run modelled here
  closes.
\<close>

datatype chunk = Stdout jsstring | Stderr jsstring

record proc =
  chunks :: "chunk list"
  exitCode :: "int option"
  effect :: "fs \<Rightarrow> fs"

datatype failure =
    ProcessFailure jsstring
  | NotFound
  | Unsupported jsstring
  | EmptyArtifact
  | StorageFailure jsstring

text \<open>\<^verbatim>\<open>error.message\<close> of each thrown error.\<close>

fun message :: "failure \<Rightarrow> jsstring" where
  "message (ProcessFailure m) = m"
| "message NotFound = str ''Downloaded file not found''"
| "message (Unsupported f) = str ''Unsupported format: '' @ f"
| "message EmptyArtifact = str ''Downloaded file is empty''"
| "message (StorageFailure m) = m"

text \<open>\<^verbatim>\<open>runYtDlp\<close> (lines 35-70): the two data handlers, fed chunk by chunk, and the
  \<^verbatim>\<open>close\<close> handler. The accumulator is \<^verbatim>\<open>(output, error)\<close> and the state the callback
  works on.\<close>

fun ytDlpData ::
  "(update \<Rightarrow> 's \<Rightarrow> 's) \<Rightarrow> chunk \<Rightarrow> jsstring \<times> jsstring \<times> 's \<Rightarrow> jsstring \<times> jsstring \<times> 's"
where
  "ytDlpData onProgress (Stdout d) (output, error, s) =
     (output @ d, error,
      (case progressMatch d of
         Some m \<Rightarrow> if m \<noteq> [] then onProgress (Progress (ParseFloat m)) s else s
       | None \<Rightarrow> s))"
| "ytDlpData onProgress (Stderr d) (output, error, s) =
     (output, error @ d,
      if includesStr d (str ''ERROR:'') then onProgress (ErrorUpdate d) s else s)"

fun ytDlpFeed ::
  "(update \<Rightarrow> 's \<Rightarrow> 's) \<Rightarrow> chunk list \<Rightarrow> jsstring \<times> jsstring \<times> 's \<Rightarrow> jsstring \<times> jsstring \<times> 's"
where
  "ytDlpFeed onProgress [] acc = acc"
| "ytDlpFeed onProgress (c # cs) acc = ytDlpFeed onProgress cs (ytDlpData onProgress c acc)"

definition runYtDlp ::
  "proc \<Rightarrow> (update \<Rightarrow> state \<Rightarrow> state) \<Rightarrow> state \<Rightarrow> (failure + jsstring) \<times> state"
where
  "runYtDlp p onProgress s =
     (case ytDlpFeed onProgress (chunks p) ([], [], s) of
        (output, error, s1) \<Rightarrow>
          (let s2 = s1\<lparr>files := effect p (files s1)\<rparr>
           in if exitCode p = Some 0 then (Inr output, s2)
              else (Inl (ProcessFailure
                      (if error = [] then str ''Video processing command failed'' else error)),
                    s2)))"

text \<open>\<^verbatim>\<open>runFFmpeg\<close> (lines 73-95): only stderr has a handler.\<close>

fun ffmpegData ::
  "(update \<Rightarrow> 's \<Rightarrow> 's) \<Rightarrow> chunk \<Rightarrow> jsstring \<times> 's \<Rightarrow> jsstring \<times> 's"
where
  "ffmpegData onProgress (Stdout d) (error, s) = (error, s)"
| "ffmpegData onProgress (Stderr d) (error, s) =
     (error @ d,
      if includesStr d (str ''size='') then onProgress (Progress (Num 90)) s else s)"

fun ffmpegFeed ::
  "(update \<Rightarrow> 's \<Rightarrow> 's) \<Rightarrow> chunk list \<Rightarrow> jsstring \<times> 's \<Rightarrow> jsstring \<times> 's"
where
  "ffmpegFeed onProgress [] acc = acc"
| "ffmpegFeed onProgress (c # cs) acc = ffmpegFeed onProgress cs (ffmpegData onProgress c acc)"

definition runFFmpeg ::
  "proc \<Rightarrow> (update \<Rightarrow> state \<Rightarrow> state) \<Rightarrow> state \<Rightarrow> (failure + unit) \<times> state"
where
  "runFFmpeg p onProgress s =
     (case ffmpegFeed onProgress (chunks p) ([], s) of
        (error, s1) \<Rightarrow>
          (let s2 = s1\<lparr>files := effect p (files s1)\<rparr>
           in if exitCode p = Some 0 then (Inr (), s2)
              else (Inl (ProcessFailure
                      (if error = [] then str ''Video conversion failed'' else error)),
                    s2)))"

section \<open>The world outside the handler\<close>

text \<open>
  What the handler calls and does not define: the two tools, as functions of their
  argument lists; \<^verbatim>\<open>uuidv4()\<close>; \<^verbatim>\<open>path.join(DOWNLOADS_DIR, name)\<close> and \<^verbatim>\<open>path.basename\<close>;
  the outcome of \<^verbatim>\<open>ensureDownloadsDir\<close> (\<open>Some m\<close>: \<^verbatim>\<open>mkdir\<close> threw an error with message
  \<open>m\<close>); the outcome of \<^verbatim>\<open>fs.readdir(DOWNLOADS_DIR)\<close>; and the message Node gives the
  error of a failed file system call, by call name and path. \<^verbatim>\<open>stat\<close> and \<^verbatim>\<open>unlink\<close> fail
  exactly when there is no file at the path.
\<close>

record world =
  yt_dlp :: "jsstring list \<Rightarrow> proc"
  ffmpeg :: "jsstring list \<Rightarrow> proc"
  uuidv4 :: jsstring
  joinDownloads :: "jsstring \<Rightarrow> jsstring"
  basename :: "jsstring \<Rightarrow> jsstring"
  mkdirError :: "jsstring option"
  readdir :: "jsstring + jsstring list"
  fsError :: "jsstring \<Rightarrow> jsstring \<Rightarrow> jsstring"

section \<open>The download job\<close>

text \<open>Lines 148-156: arguments and names.\<close>

definition titleArgs :: "jsstring \<Rightarrow> jsstring list" where
  "titleArgs url = [str ''--get-title'', url]"

definition sanitizeTitle :: "jsstring \<Rightarrow> jsstring" where
  "sanitizeTitle videoTitle =
     (let t = trim (filter (\<lambda>c. c \<notin> set [92, 47, 58, 42, 63, 34, 60, 62, 124]) videoTitle)
      in if t = [] then str ''video'' else t)"

definition sanitizeUrl :: "jsstring \<Rightarrow> jsstring" where
  "sanitizeUrl url = take 10 (filter isAlnum url)"

definition workingName :: "jsstring \<Rightarrow> jsstring \<Rightarrow> jsstring" where
  "workingName fileId sanitizedUrl = fileId @ str ''_'' @ sanitizedUrl"

definition outputTemplate :: "world \<Rightarrow> jsstring \<Rightarrow> jsstring" where
  "outputTemplate w base = joinDownloads w (base @ str ''.%(ext)s'')"

text \<open>Lines 160-175: the audio branch.\<close>

definition audioArgs :: "jsstring \<Rightarrow> jsstring \<Rightarrow> jsstring \<Rightarrow> jsstring list" where
  "audioArgs format template url =
     [str ''--extract-audio'', str ''--audio-format'', format, str ''--audio-quality'', str ''0'',
      str ''--output'', template, str ''--no-playlist'', str ''--embed-thumbnail'', url]"

definition downloadAudio ::
  "world \<Rightarrow> jsstring \<Rightarrow> jsstring \<Rightarrow> jsstring \<Rightarrow> state \<Rightarrow> (failure + jsstring) \<times> state"
where
  "downloadAudio w url format base s =
     (let s1 = sendProgress (Status (str ''Downloading audio...'') 20) s
      in case runYtDlp (yt_dlp w (audioArgs format (outputTemplate w base) url)) sendProgress s1 of
           (Inl e, s2) \<Rightarrow> (Inl e, s2)
         | (Inr out, s2) \<Rightarrow> (Inr (joinDownloads w (base @ str ''.'' @ format)), s2))"

text \<open>Lines 176-213: the video branch. \<^verbatim>\<open>quality.replace('p', '')\<close> removes the first
  \<^verbatim>\<open>p\<close> (code unit 112).\<close>

definition formatSelector :: "jsstring \<Rightarrow> jsstring \<Rightarrow> jsstring" where
  "formatSelector quality format =
     (if quality = str ''auto''
      then str ''bestvideo[ext='' @ format @ str '']+bestaudio/best''
      else (let height = remove1 112 quality
            in str ''bestvideo[height<='' @ height @ str ''][ext='' @ format
               @ str '']+bestaudio[ext=m4a]/best[height<='' @ height @ str ''][ext='' @ format
               @ str '']''))"

definition videoArgs :: "jsstring \<Rightarrow> jsstring \<Rightarrow> jsstring \<Rightarrow> jsstring \<Rightarrow> jsstring list" where
  "videoArgs selector template format url =
     [str ''--format'', selector, str ''--output'', template, str ''--no-playlist'',
      str ''--merge-output-format'', format, str ''--embed-subs'', str ''--write-auto-subs'',
      str ''--sub-lang'', str ''en'', url]"

definition ffmpegArgs :: "jsstring \<Rightarrow> jsstring \<Rightarrow> jsstring list" where
  "ffmpegArgs finalPath convertedPath =
     [str ''-i'', finalPath, str ''-c'', str ''copy'', convertedPath]"

definition unlink :: "world \<Rightarrow> jsstring \<Rightarrow> state \<Rightarrow> (failure + unit) \<times> state" where
  "unlink w p s =
     (case files s p of
        None \<Rightarrow> (Inl (StorageFailure (fsError w (str ''unlink'') p)), s)
      | Some b \<Rightarrow> (Inr (), s\<lparr>files := (files s)(p := None)\<rparr>))"

definition convertFile ::
  "world \<Rightarrow> jsstring \<Rightarrow> jsstring \<Rightarrow> jsstring \<Rightarrow> state \<Rightarrow> (failure + jsstring) \<times> state"
where
  "convertFile w base format finalPath s =
     (let convertedPath = joinDownloads w (base @ str ''_converted.'' @ format);
          s1 = sendProgress (Status (str ''Converting file...'') 80) s
      in case runFFmpeg (ffmpeg w (ffmpegArgs finalPath convertedPath)) sendProgress s1 of
           (Inl e, s2) \<Rightarrow> (Inl e, s2)
         | (Inr u, s2) \<Rightarrow>
             (case unlink w finalPath s2 of
                (Inl e, s3) \<Rightarrow> (Inl e, s3)
              | (Inr u, s3) \<Rightarrow> (Inr convertedPath, s3)))"

definition locateDownloaded ::
  "world \<Rightarrow> jsstring \<Rightarrow> jsstring \<Rightarrow> state \<Rightarrow> (failure + jsstring) \<times> state"
where
  "locateDownloaded w base format s =
     (case readdir w of
        Inl m \<Rightarrow> (Inl (StorageFailure m), s)
      | Inr entries \<Rightarrow>
          (case find (\<lambda>f. startsWith f base) entries of
             None \<Rightarrow> (Inl NotFound, s)
           | Some downloadedFile \<Rightarrow>
               (let finalPath = joinDownloads w downloadedFile
                in if \<not> endsWith downloadedFile (str ''.'' @ format)
                   then convertFile w base format finalPath s
                   else (Inr finalPath, s))))"

definition downloadVideo ::
  "world \<Rightarrow> jsstring \<Rightarrow> jsstring \<Rightarrow> jsstring \<Rightarrow> jsstring \<Rightarrow> state \<Rightarrow> (failure + jsstring) \<times> state"
where
  "downloadVideo w url format quality base s =
     (let selector = formatSelector quality format;
          s1 = sendProgress (Status (str ''Downloading video...'') 20) s
      in case runYtDlp (yt_dlp w (videoArgs selector (outputTemplate w base) format url))
                sendProgress s1 of
           (Inl e, s2) \<Rightarrow> (Inl e, s2)
         | (Inr out, s2) \<Rightarrow> locateDownloaded w base format s2)"

text \<open>Lines 160, 176, 214-216: the choice of the branch.\<close>

definition download ::
  "world \<Rightarrow> jsstring \<Rightarrow> jsstring \<Rightarrow> jsstring \<Rightarrow> jsstring \<Rightarrow> state \<Rightarrow> (failure + jsstring) \<times> state"
where
  "download w url format quality base s =
     (if format = str ''mp3'' \<or> format = str ''m4a'' then downloadAudio w url format base s
      else if format = str ''mp4'' \<or> format = str ''webm''
           then downloadVideo w url format quality base s
           else (Inl (Unsupported format), s))"

text \<open>Lines 218-221: \<^verbatim>\<open>fs.stat\<close> and the check for an empty file.\<close>

definition stat :: "world \<Rightarrow> fs \<Rightarrow> jsstring \<Rightarrow> failure + nat" where
  "stat w fsys p =
     (case fsys p of
        None \<Rightarrow> Inl (StorageFailure (fsError w (str ''stat'') p))
      | Some b \<Rightarrow> Inr (length b))"

definition validate :: "world \<Rightarrow> jsstring \<Rightarrow> state \<Rightarrow> failure + nat" where
  "validate w finalPath s =
     (case stat w (files s) finalPath of
        Inl e \<Rightarrow> Inl e
      | Inr sz \<Rightarrow> if sz = 0 then Inl EmptyArtifact else Inr sz)"

text \<open>Lines 218-229: validation and the download-ready message.\<close>

definition finish :: "world \<Rightarrow> jsstring \<Rightarrow> jsstring \<Rightarrow> state \<Rightarrow> (failure + unit) \<times> state" where
  "finish w finalFilename finalPath s =
     (case validate w finalPath s of
        Inl e \<Rightarrow> (Inl e, s)
      | Inr sz \<Rightarrow>
          (Inr (),
           sendProgress
             (DownloadReady finalFilename sz (str ''/download/'' @ basename w finalPath)) s))"

text \<open>Lines 146-149: the staging directory and the title.\<close>

definition fetchTitle :: "world \<Rightarrow> jsstring \<Rightarrow> state \<Rightarrow> (failure + jsstring) \<times> state" where
  "fetchTitle w url s =
     (case mkdirError w of
        Some m \<Rightarrow> (Inl (StorageFailure m), s)
      | None \<Rightarrow>
          (case runYtDlp (yt_dlp w (titleArgs url)) sendProgress s of
             (Inl e, s1) \<Rightarrow> (Inl e, s1)
           | (Inr out, s1) \<Rightarrow> (Inr (trim out), s1)))"

text \<open>Lines 145-230: the body of the inner \<^verbatim>\<open>try\<close>. \<open>Inl\<close> is the error the \<^verbatim>\<open>catch\<close>
  receives.\<close>

definition downloadJob ::
  "world \<Rightarrow> jsstring \<Rightarrow> jsstring \<Rightarrow> jsstring \<Rightarrow> state \<Rightarrow> (failure + unit) \<times> state"
where
  "downloadJob w url format quality s =
     (case fetchTitle w url s of
        (Inl e, s1) \<Rightarrow> (Inl e, s1)
      | (Inr videoTitle, s1) \<Rightarrow>
          (let s2 = sendProgress (Status (str ''Processing: '' @ videoTitle) 10) s1;
               base = workingName (uuidv4 w) (sanitizeUrl url);
               finalFilename = sanitizeTitle videoTitle @ str ''.'' @ format
           in case download w url format quality base s2 of
                (Inl e, s3) \<Rightarrow> (Inl e, s3)
              | (Inr finalPath, s3) \<Rightarrow> finish w finalFilename finalPath s3))"

section \<open>Failure classification and the message handler\<close>

definition msgNotAvailable :: jsstring where
  "msgNotAvailable = str ''Video format not available. Try a different quality setting.''"

definition msgAccess :: jsstring where
  "msgAccess = str ''Video is private or requires login. Please check if the video is publicly accessible.''"

definition msgRegion :: jsstring where
  "msgRegion = str ''Video not available in your region due to geographic restrictions.''"

definition msgRights :: jsstring where
  "msgRights = str ''Video unavailable due to copyright restrictions.''"

definition msgGeneric :: jsstring where
  "msgGeneric = str ''Failed to download video. Please check the URL and try again.''"

definition msgInternal :: jsstring where
  "msgInternal = str ''An internal server error occurred.''"

text \<open>Lines 232-241: the user-facing message chosen from \<^verbatim>\<open>error.message\<close>.\<close>

definition classify :: "jsstring \<Rightarrow> jsstring" where
  "classify m =
     (if includesStr m (str ''format is not available'') then msgNotAvailable
      else if includesStr m (str ''private'') \<or> includesStr m (str ''login'') then msgAccess
      else if includesStr m (str ''geo'') then msgRegion
      else if includesStr m (str ''copyright'') then msgRights
      else msgGeneric)"

text \<open>
  An inbound message, after \<^verbatim>\<open>JSON.parse\<close> and the two destructurings (lines 131-133):
  \<open>Malformed\<close> when one of them throws, \<open>OtherType\<close> when \<^verbatim>\<open>type\<close> is not
  \<^verbatim>\<open>'download-request'\<close>, else the request with its \<^verbatim>\<open>url\<close>, \<^verbatim>\<open>format\<close> and \<^verbatim>\<open>quality\<close>, which
  are strings (the job request of the data model).
\<close>

datatype inbound = Malformed | OtherType | DownloadRequest jsstring jsstring jsstring

text \<open>Lines 129-251: the handler of one message.\<close>

definition onMessage :: "world \<Rightarrow> inbound \<Rightarrow> state \<Rightarrow> state" where
  "onMessage w msg s =
     (case msg of
        Malformed \<Rightarrow>
          if socket s (length (calls s)) = OPEN
          then s\<lparr>sent := sent s @ [ErrorUpdate msgInternal]\<rparr> else s
      | OtherType \<Rightarrow> s
      | DownloadRequest url format quality \<Rightarrow>
          (let s1 = sendProgress (Status (str ''Fetching video information...'') 5) s
           in case downloadJob w url format quality s1 of
                (Inr u, s2) \<Rightarrow> s2
              | (Inl e, s2) \<Rightarrow> sendProgress (ErrorUpdate (classify (message e))) s2))"

section \<open>The download route\<close>

text \<open>
  \<^verbatim>\<open>app.get('/download/:filename')\<close> (lines 255-279). \<^verbatim>\<open>fs.access\<close> succeeds for whatever
  stands at the path, a regular file or a directory (\<open>isDirectory\<close>; the file map holds
  the regular files only). \<^verbatim>\<open>res.download(filePath, filename, callback)\<close> offers the file
  as an attachment whose suggested save name is the base name of \<^verbatim>\<open>filename\<close>, and what it
  sends is Express's answer to the request. \<open>transfer\<close> is how it ends: \<open>SentAll\<close>, the
  callback gets no error and the whole file was sent (a plain GET); \<open>SentPart body\<close>, the
  callback gets no error and only \<open>body\<close> was sent (a part of the file for a Range
  request, nothing for a HEAD or a conditional request); \<open>TransferError headersSent\<close>,
  the callback gets an error, with \<^verbatim>\<open>res.headersSent\<close> as given. For a directory
  \<^verbatim>\<open>res.download\<close> always ends with an error before any header is sent. The callback
  looks at the error only. A failed \<^verbatim>\<open>unlink\<close> in the clean-up is logged only.
  A response is a JSON body with a status, an attachment with its suggested save name
  and the bytes sent, or a transfer that broke off after the headers were sent.
\<close>

datatype transfer = SentAll | SentPart "nat list" | TransferError bool

datatype response =
    Json nat jsstring
  | Attachment jsstring "nat list"
  | Interrupted jsstring

definition downloadRoute ::
  "world \<Rightarrow> (jsstring \<Rightarrow> bool) \<Rightarrow> jsstring \<Rightarrow> transfer \<Rightarrow> fs \<Rightarrow> response \<times> fs"
where
  "downloadRoute w isDirectory filename t fsys =
     (let filePath = joinDownloads w filename
      in case fsys filePath of
           None \<Rightarrow>
             if isDirectory filePath then (Json 500 (str ''File download failed''), fsys)
             else (Json 404 (str ''File not found or has expired.''), fsys)
         | Some bytes \<Rightarrow>
             (case t of
                TransferError headersSent \<Rightarrow>
                  (if \<not> headersSent then Json 500 (str ''File download failed'')
                   else Interrupted (basename w filename),
                   fsys)
              | SentAll \<Rightarrow>
                  (Attachment (basename w filename) bytes, fsys(filePath := None))
              | SentPart body \<Rightarrow>
                  (Attachment (basename w filename) body, fsys(filePath := None))))"

section \<open>The vocabulary of the specification\<close>

text \<open>
  The failure categories of the specification and its classification heuristic, in
  its own words: a text contains a pattern when the pattern is a contiguous part of it
  (\<open>sublist\<close>), the patterns are tried in a fixed order and the first match wins.
\<close>

datatype category =
  NotAvailable | AccessRestricted | RegionRestricted | RightsRestricted | GenericRetry

definition categoryOf :: "jsstring \<Rightarrow> category" where
  "categoryOf t =
     (if sublist (str ''format is not available'') t then NotAvailable
      else if sublist (str ''private'') t \<or> sublist (str ''login'') t then AccessRestricted
      else if sublist (str ''geo'') t then RegionRestricted
      else if sublist (str ''copyright'') t then RightsRestricted
      else GenericRetry)"

fun categoryMessage :: "category \<Rightarrow> jsstring" where
  "categoryMessage NotAvailable = msgNotAvailable"
| "categoryMessage AccessRestricted = msgAccess"
| "categoryMessage RegionRestricted = msgRegion"
| "categoryMessage RightsRestricted = msgRights"
| "categoryMessage GenericRetry = msgGeneric"

text \<open>
  The percentage pattern of the specification: a text starts with it when it is the
  download marker, at least one white space character, digits, a point, digits and
  \<^verbatim>\<open>% of\<close>, whatever follows; the percentage is the digits around the point.
  \<open>occursAt frag i p\<close>: the pattern starts at offset \<open>i\<close> of the fragment, with percentage
  \<open>p\<close>. \<open>firstPercent frag p\<close>: \<open>p\<close> is the percentage of the leftmost occurrence.
\<close>

definition progressPattern :: "jsstring \<Rightarrow> jsstring \<Rightarrow> bool" where
  "progressPattern t p =
     (\<exists>ws d1 d2 rest.
        t = str ''[download]'' @ ws @ d1 @ [46] @ d2 @ str ''% of'' @ rest
        \<and> ws \<noteq> [] \<and> list_all isWhiteSpace ws
        \<and> d1 \<noteq> [] \<and> list_all isDigit d1
        \<and> d2 \<noteq> [] \<and> list_all isDigit d2
        \<and> p = d1 @ [46] @ d2)"

definition occursAt :: "jsstring \<Rightarrow> nat \<Rightarrow> jsstring \<Rightarrow> bool" where
  "occursAt frag i p = (i \<le> length frag \<and> progressPattern (drop i frag) p)"

definition firstPercent :: "jsstring \<Rightarrow> jsstring \<Rightarrow> bool" where
  "firstPercent frag p =
     (\<exists>i. occursAt frag i p \<and> (\<forall>j q. occursAt frag j q \<longrightarrow> i \<le> j))"

text \<open>
  The format selector language of the extraction tool: \<^verbatim>\<open>/\<close> (code unit 47) separates
  the alternatives, which the tool tries from left to right.
\<close>

fun splitOn :: "nat \<Rightarrow> jsstring \<Rightarrow> jsstring list" where
  "splitOn d [] = [[]]"
| "splitOn d (c # cs) =
     (if c = d then [] # splitOn d cs
      else (case splitOn d cs of [] \<Rightarrow> [[c]] | x # xs \<Rightarrow> (c # x) # xs))"

definition selectorAlternatives :: "jsstring \<Rightarrow> jsstring list" where
  "selectorAlternatives selector = splitOn 47 selector"

text \<open>
  \<open>locateByPrefix\<close> of the specification: the one entry of the staging directory whose
  name starts with the prefix.
\<close>

definition locateByPrefix :: "jsstring list \<Rightarrow> jsstring \<Rightarrow> jsstring option" where
  "locateByPrefix entries base =
     (case filter (\<lambda>f. startsWith f base) entries of [f] \<Rightarrow> Some f | _ \<Rightarrow> None)"

section \<open>Concrete worlds\<close>

text \<open>
  A staging directory \<^verbatim>\<open>/srv/downloads\<close>, a request for \<^verbatim>\<open>https://example/video\<close> and
  runs of the tools, for evaluating the handler. \<open>demoFsError\<close> is Node's message for a
  missing file; 39 is the apostrophe.
\<close>

definition demoJoin :: "jsstring \<Rightarrow> jsstring" where
  "demoJoin name = str ''/srv/downloads/'' @ name"

definition demoBasename :: "jsstring \<Rightarrow> jsstring" where
  "demoBasename p = last (splitOn 47 p)"

definition demoFsError :: "jsstring \<Rightarrow> jsstring \<Rightarrow> jsstring" where
  "demoFsError call p = str ''ENOENT: no such file or directory, '' @ call @ [32, 39] @ p @ [39]"

definition demoUrl :: jsstring where
  "demoUrl = str ''https://example/video''"

definition demoId :: jsstring where
  "demoId = str ''1b9d6bcd-bbfd-4b2d-9b5d-ab8dfbbd4bed''"

definition demoBase :: jsstring where
  "demoBase = str ''1b9d6bcd-bbfd-4b2d-9b5d-ab8dfbbd4bed_httpsexamp''"

definition titleRun :: proc where
  "titleRun = \<lparr>chunks = [Stdout (str ''Demo: Clip?'' @ [10])], exitCode = Some 0, effect = id\<rparr>"

definition privateRun :: proc where
  "privateRun =
     \<lparr>chunks = [Stderr (str ''ERROR: Private video'')], exitCode = Some 1, effect = id\<rparr>"

definition writingRun :: "jsstring \<Rightarrow> nat list \<Rightarrow> proc" where
  "writingRun name bytes =
     \<lparr>chunks = [Stdout (str ''[download]   3.5% of 4.20MiB''),
                 Stdout (str ''[download]  99.9% of 4.20MiB [download] 100.0% of 4.20MiB'')],
      exitCode = Some 0,
      effect = (\<lambda>fsys. fsys(demoJoin name \<mapsto> bytes))\<rparr>"

definition quietRun :: proc where
  "quietRun = \<lparr>chunks = [], exitCode = Some 0, effect = id\<rparr>"

definition demoWorld :: "proc \<Rightarrow> jsstring list \<Rightarrow> world" where
  "demoWorld dl entries =
     \<lparr>yt_dlp = (\<lambda>args. if args = titleArgs demoUrl then titleRun else dl),
      ffmpeg = (\<lambda>args. quietRun),
      uuidv4 = demoId,
      joinDownloads = demoJoin,
      basename = demoBasename,
      mkdirError = None,
      readdir = Inr entries,
      fsError = demoFsError\<rparr>"

definition privateWorld :: world where
  "privateWorld = (demoWorld privateRun [])\<lparr>yt_dlp := (\<lambda>args. privateRun)\<rparr>"

definition privateDownloadWorld :: world where
  "privateDownloadWorld = demoWorld privateRun []"

definition noDirectory :: "jsstring \<Rightarrow> bool" where
  "noDirectory p = False"

definition start :: "(nat \<Rightarrow> readyState) \<Rightarrow> state" where
  "start r = \<lparr>files = Map.empty, socket = r, calls = [], sent = []\<rparr>"

definition alwaysOpen :: "nat \<Rightarrow> readyState" where
  "alwaysOpen n = OPEN"

definition closedFrom :: "nat \<Rightarrow> nat \<Rightarrow> readyState" where
  "closedFrom k n = (if n < k then OPEN else CLOSED)"

definition audioWorld :: "jsstring list \<Rightarrow> world" where
  "audioWorld entries = demoWorld (writingRun (demoBase @ str ''.mp3'') [1, 2, 3]) entries"

definition videoWorld :: "jsstring list \<Rightarrow> world" where
  "videoWorld entries = demoWorld (writingRun (demoBase @ str ''.mp4'') [1, 2, 3]) entries"

definition emptyWorld :: world where
  "emptyWorld = demoWorld (writingRun (demoBase @ str ''.mp3'') []) []"

section \<open>Traces of a handler run\<close>

text \<open>
  \<open>deliveredFrom r k us\<close>: the updates among \<open>us\<close> that reach the wire when they are
  handed to the send helper one after the other, the first at the moment \<open>k\<close> calls have
  been made, and the socket's ready states are \<open>r\<close>. \<open>emits us s s'\<close>: from state \<open>s\<close> to
  state \<open>s'\<close> the helper was called with exactly the updates \<open>us\<close>, in this order,
  exactly those of them that met an open socket were sent, and nothing else was sent.
  \<open>grows P s s'\<close>: the same for some updates that all satisfy \<open>P\<close>.
\<close>

fun deliveredFrom :: "(nat \<Rightarrow> readyState) \<Rightarrow> nat \<Rightarrow> update list \<Rightarrow> update list" where
  "deliveredFrom r k [] = []"
| "deliveredFrom r k (u # us) =
     (if r k = OPEN then u # deliveredFrom r (Suc k) us else deliveredFrom r (Suc k) us)"

definition emits :: "update list \<Rightarrow> state \<Rightarrow> state \<Rightarrow> bool" where
  "emits us s s' =
     (socket s' = socket s \<and> calls s' = calls s @ us
      \<and> sent s' = sent s @ deliveredFrom (socket s) (length (calls s)) us)"

definition grows :: "(update \<Rightarrow> bool) \<Rightarrow> state \<Rightarrow> state \<Rightarrow> bool" where
  "grows P s s' =
     (socket s' = socket s
      \<and> (\<exists>us. calls s' = calls s @ us \<and> list_all P us
               \<and> sent s' = sent s @ deliveredFrom (socket s) (length (calls s)) us))"

text \<open>
  \<open>stdoutOf\<close> and \<open>stderrOf\<close> are the two texts of a run, the chunks of each stream put
  together. \<open>forwarded cs\<close> is what the specification of the process runner asks the
  handlers of a run of the extraction tool with chunks \<open>cs\<close> to pass on, chunk by chunk
  in arrival order: for a stdout chunk with a percentage match one progress update, for
  a stderr chunk that contains \<^verbatim>\<open>ERROR:\<close> one error update whose message is the whole
  chunk, and nothing for any other chunk.
\<close>

fun stdoutOf :: "chunk list \<Rightarrow> jsstring" where
  "stdoutOf [] = []"
| "stdoutOf (Stdout d # cs) = d @ stdoutOf cs"
| "stdoutOf (Stderr d # cs) = stdoutOf cs"

fun stderrOf :: "chunk list \<Rightarrow> jsstring" where
  "stderrOf [] = []"
| "stderrOf (Stderr d # cs) = d @ stderrOf cs"
| "stderrOf (Stdout d # cs) = stderrOf cs"

fun forwarded :: "chunk list \<Rightarrow> update list" where
  "forwarded [] = []"
| "forwarded (Stdout d # cs) =
     (case progressMatch d of Some m \<Rightarrow> [Progress (ParseFloat m)] | None \<Rightarrow> [])
     @ forwarded cs"
| "forwarded (Stderr d # cs) =
     (if includesStr d (str ''ERROR:'') then [ErrorUpdate d] else []) @ forwarded cs"

text \<open>\<open>failureText p\<close> is the message of the error with which a run that does not exit
  with status 0 rejects (line 66).\<close>

definition failureText :: "proc \<Rightarrow> jsstring" where
  "failureText p =
     (if stderrOf (chunks p) = [] then str ''Video processing command failed''
      else stderrOf (chunks p))"

text \<open>
  The runs of the extraction tool that the job for a request can make, the title as
  the job reads it, and the working name of the job.
\<close>

definition jobBase :: "world \<Rightarrow> jsstring \<Rightarrow> jsstring" where
  "jobBase w url = workingName (uuidv4 w) (sanitizeUrl url)"

definition titleRunOf :: "world \<Rightarrow> jsstring \<Rightarrow> proc" where
  "titleRunOf w url = yt_dlp w (titleArgs url)"

definition audioRunOf :: "world \<Rightarrow> jsstring \<Rightarrow> jsstring \<Rightarrow> proc" where
  "audioRunOf w url format =
     yt_dlp w (audioArgs format (outputTemplate w (jobBase w url)) url)"

definition videoRunOf :: "world \<Rightarrow> jsstring \<Rightarrow> jsstring \<Rightarrow> jsstring \<Rightarrow> proc" where
  "videoRunOf w url format quality =
     yt_dlp w (videoArgs (formatSelector quality format) (outputTemplate w (jobBase w url))
                 format url)"

definition jobRuns :: "world \<Rightarrow> jsstring \<Rightarrow> jsstring \<Rightarrow> jsstring \<Rightarrow> proc list" where
  "jobRuns w url format quality =
     [titleRunOf w url, audioRunOf w url format, videoRunOf w url format quality]"

definition titleOf :: "world \<Rightarrow> jsstring \<Rightarrow> jsstring" where
  "titleOf w url = trim (stdoutOf (chunks (titleRunOf w url)))"

text \<open>
  The messages of the fixed set, and the updates a peer may be sent for a request, each
  with where its content comes from. A status is one of the four fixed status lines or
  the processing line with the title, which is the trimmed stdout of the title run. A
  progress carries 90 or the percentage matched in a stdout chunk of one of the job's
  runs. A download-ready message carries the sanitized title with the format as its
  file name, a positive size and the base name of a path in the staging directory whose
  entry name starts with the working name of the job. An error carries a message of
  the fixed set, or a stderr chunk of one of the job's runs that contains \<^verbatim>\<open>ERROR:\<close>; no
  other update carries text of a stderr stream. A terminal update is a download-ready
  message or an error with a message of the fixed set.
\<close>

definition fromFixedSet :: "jsstring \<Rightarrow> bool" where
  "fromFixedSet m =
     (m = msgNotAvailable \<or> m = msgAccess \<or> m = msgRegion \<or> m = msgRights \<or> m = msgGeneric
      \<or> m = msgInternal)"

fun allowed :: "world \<Rightarrow> jsstring \<Rightarrow> jsstring \<Rightarrow> jsstring \<Rightarrow> update \<Rightarrow> bool" where
  "allowed w url format quality (Status m n) =
     ((m = str ''Fetching video information...'' \<and> n = 5)
      \<or> (m = str ''Processing: '' @ titleOf w url \<and> n = 10)
      \<or> (m = str ''Downloading audio...'' \<and> n = 20)
      \<or> (m = str ''Downloading video...'' \<and> n = 20)
      \<or> (m = str ''Converting file...'' \<and> n = 80))"
| "allowed w url format quality (Progress x) =
     (x = Num 90
      \<or> (\<exists>p d m. p \<in> set (jobRuns w url format quality) \<and> Stdout d \<in> set (chunks p)
                  \<and> progressMatch d = Some m \<and> x = ParseFloat m))"
| "allowed w url format quality (DownloadReady f n u) =
     (f = sanitizeTitle (titleOf w url) @ str ''.'' @ format \<and> 0 < n
      \<and> (\<exists>name. startsWith name (jobBase w url)
                 \<and> u = str ''/download/'' @ basename w (joinDownloads w name)))"
| "allowed w url format quality (ErrorUpdate m) =
     (fromFixedSet m
      \<or> (\<exists>p. p \<in> set (jobRuns w url format quality) \<and> Stderr m \<in> set (chunks p)
              \<and> includesStr m (str ''ERROR:'')))"

fun terminal :: "update \<Rightarrow> bool" where
  "terminal (ErrorUpdate m) = fromFixedSet m"
| "terminal (DownloadReady f n u) = True"
| "terminal u = False"

text \<open>
  \<open>lastUpdate w url format r s\<close>: the terminal update of a job whose download step ended
  with result \<open>r\<close> in state \<open>s\<close>: the classified error for a failure of the step or of the
  validation, the download-ready message otherwise.
\<close>

definition lastUpdate ::
  "world \<Rightarrow> jsstring \<Rightarrow> jsstring \<Rightarrow> failure + jsstring \<Rightarrow> state \<Rightarrow> update"
where
  "lastUpdate w url format r s =
     (case r of
        Inl e \<Rightarrow> ErrorUpdate (classify (message e))
      | Inr finalPath \<Rightarrow>
          (case validate w finalPath s of
             Inl e \<Rightarrow> ErrorUpdate (classify (message e))
           | Inr sz \<Rightarrow>
               DownloadReady (sanitizeTitle (titleOf w url) @ str ''.'' @ format) sz
                 (str ''/download/'' @ basename w finalPath)))"

text \<open>\<open>withOpenSocket s\<close>: the state \<open>s\<close> as it would be had the socket been open at every
  call of the helper, so that every update handed over was sent.\<close>

definition withOpenSocket :: "state \<Rightarrow> state" where
  "withOpenSocket s = s\<lparr>socket := alwaysOpen, sent := calls s\<rparr>"


section \<open>Facts about the string functions\<close>

lemma startsWith_prefix: "startsWith s p \<longleftrightarrow> prefix p s"
  by (induction s p rule: startsWith.induct) auto

lemma includesStr_sublist: "includesStr s n \<longleftrightarrow> sublist n s"
  by (induction s) (auto simp: startsWith_prefix sublist_Cons_right)

lemmas msg_defs =
  msgNotAvailable_def msgAccess_def msgRegion_def msgRights_def msgGeneric_def msgInternal_def

lemma categoryMessage_inj: "inj categoryMessage"
proof (rule injI)
  fix a b assume "categoryMessage a = categoryMessage b"
  then show "a = b"
    by (cases a; cases b) (simp_all add: msg_defs str_def)
qed

section \<open>C1: failure classification\<close>

text \<open>
  Claim C1. The message the handler chooses for a failure is a function of the
  diagnostic text alone: it is the message of the category that the fixed-order,
  first-match-wins substring test of the specification gives the text ("format is not
  available", then "private" or "login", then "geo", then "copyright", else the generic
  retry message), and the five messages are pairwise different, so the message
  determines the category.
\<close>

theorem classify_first_match:
  "classify m = categoryMessage (categoryOf m) \<and> inj categoryMessage"
  by (simp add: classify_def categoryOf_def includesStr_sublist categoryMessage_inj)

theorem classify_first_match_witness:
  "classify (str ''ERROR: format is not available'') = categoryMessage NotAvailable
   \<and> classify (str ''ERROR: video is private'') = categoryMessage AccessRestricted
   \<and> classify (str ''connection reset'') = categoryMessage GenericRetry
   \<and> classify (str ''private geo copyright'') = categoryMessage AccessRestricted"
proof -
  have a: "categoryOf (str ''ERROR: format is not available'') = NotAvailable"
    by (simp add: categoryOf_def includesStr_sublist [symmetric] str_def)
  have b: "categoryOf (str ''ERROR: video is private'') = AccessRestricted"
    by (simp add: categoryOf_def includesStr_sublist [symmetric] str_def)
  have c: "categoryOf (str ''connection reset'') = GenericRetry"
    by (simp add: categoryOf_def includesStr_sublist [symmetric] str_def)
  have d: "categoryOf (str ''private geo copyright'') = AccessRestricted"
    by (simp add: categoryOf_def includesStr_sublist [symmetric] str_def)
  show ?thesis
    using classify_first_match [of "str ''ERROR: format is not available''"]
      classify_first_match [of "str ''ERROR: video is private''"]
      classify_first_match [of "str ''connection reset''"]
      classify_first_match [of "str ''private geo copyright''"]
    by (simp only: a b c d)
qed

section \<open>The send helper\<close>

lemma sent_sendProgress:
  "sent (sendProgress u s) = (if socket s (length (calls s)) = OPEN then sent s @ [u] else sent s)"
  by (simp add: sendProgress_def Let_def)

lemma calls_sendProgress: "calls (sendProgress u s) = calls s @ [u]"
  by (simp add: sendProgress_def Let_def)

lemma files_sendProgress: "files (sendProgress u s) = files s"
  by (simp add: sendProgress_def Let_def)

lemma socket_sendProgress: "socket (sendProgress u s) = socket s"
  by (simp add: sendProgress_def Let_def)

section \<open>C8: validation of the final file\<close>

text \<open>
  Claim C8. The validation step fails with the empty-artifact failure exactly when
  the size that \<^verbatim>\<open>fs.stat\<close> reports for the file is 0, that is, when the file exists and
  has no bytes. It accepts exactly the files whose reported size is positive, the size
  it passes on is the one \<^verbatim>\<open>fs.stat\<close> reports, and this is the size of the download-ready
  message.
\<close>

theorem validate_empty_iff:
  "(validate w p s = Inl EmptyArtifact \<longleftrightarrow> stat w (files s) p = Inr 0)
   \<and> (stat w (files s) p = Inr 0 \<longleftrightarrow> files s p = Some [])
   \<and> (validate w p s = Inr n \<longleftrightarrow> stat w (files s) p = Inr n \<and> 0 < n)
   \<and> (fst (finish w name p s) = Inr () \<longleftrightarrow> (\<exists>n. validate w p s = Inr n))
   \<and> (validate w p s = Inr n \<longrightarrow>
        calls (snd (finish w name p s))
          = calls s @ [DownloadReady name n (str ''/download/'' @ basename w p)])"
  by (auto simp: validate_def stat_def finish_def calls_sendProgress
           split: option.splits sum.splits)

theorem validate_empty_iff_witness:
  "validate (demoWorld quietRun []) (str ''a'') ((start alwaysOpen)\<lparr>files := [str ''a'' \<mapsto> []]\<rparr>)
     = Inl EmptyArtifact
   \<and> validate (demoWorld quietRun []) (str ''a'') ((start alwaysOpen)\<lparr>files := [str ''a'' \<mapsto> [7, 8]]\<rparr>)
     = Inr 2
   \<and> calls (snd (finish (demoWorld quietRun []) (str ''t.mp3'') (str ''a'')
        ((start alwaysOpen)\<lparr>files := [str ''a'' \<mapsto> [7, 8]]\<rparr>)))
     = [DownloadReady (str ''t.mp3'') 2 (str ''/download/a'')]"
  using validate_empty_iff [of "demoWorld quietRun []" "str ''a''"
      "(start alwaysOpen)\<lparr>files := [str ''a'' \<mapsto> []]\<rparr>" 2 "str ''t.mp3''"]
    validate_empty_iff [of "demoWorld quietRun []" "str ''a''"
      "(start alwaysOpen)\<lparr>files := [str ''a'' \<mapsto> [7, 8]]\<rparr>" 2 "str ''t.mp3''"]
  by (simp add: stat_def start_def demoWorld_def demoBasename_def str_def)

section \<open>C4: the download route\<close>

text \<open>
  Claim C4, as stated: a file that is present is deleted after the transfer, whether
  the transfer succeeded or failed. It fails: the file \<^verbatim>\<open>a.mp4\<close> is present, the transfer
  fails after the headers were sent, and the file is still there afterwards.
\<close>

theorem downloadRoute_unlinks_counterexample:
  "snd (downloadRoute (demoWorld quietRun []) noDirectory (str ''a.mp4'') (TransferError True)
          [demoJoin (str ''a.mp4'') \<mapsto> [1, 2, 3]])
     (demoJoin (str ''a.mp4'')) = Some [1, 2, 3]"
  by (simp add: downloadRoute_def demoWorld_def)

text \<open>
  Claim C4, amended. When nothing is at the path of the requested name the response is
  404 and no file changes; when a directory is there the response is 500 and no file
  changes. When a regular file is there, it is offered as an attachment whose suggested
  save name is the base name of the requested name, and: if the transfer ends without
  error, the file is deleted, whether the whole file was sent or only what a Range,
  HEAD or conditional request is answered with; if the transfer ends with an error, no
  file changes, and the response is 500 when the headers were not yet sent.
\<close>

theorem downloadRoute_cases:
  "(fsys (joinDownloads w filename) = None \<and> \<not> isDirectory (joinDownloads w filename) \<longrightarrow>
      downloadRoute w isDirectory filename t fsys
        = (Json 404 (str ''File not found or has expired.''), fsys))
   \<and> (fsys (joinDownloads w filename) = None \<and> isDirectory (joinDownloads w filename) \<longrightarrow>
      downloadRoute w isDirectory filename t fsys
        = (Json 500 (str ''File download failed''), fsys))
   \<and> (fsys (joinDownloads w filename) = Some bytes \<longrightarrow>
      downloadRoute w isDirectory filename SentAll fsys
        = (Attachment (basename w filename) bytes, fsys(joinDownloads w filename := None))
      \<and> downloadRoute w isDirectory filename (SentPart body) fsys
        = (Attachment (basename w filename) body, fsys(joinDownloads w filename := None))
      \<and> downloadRoute w isDirectory filename (TransferError False) fsys
        = (Json 500 (str ''File download failed''), fsys)
      \<and> downloadRoute w isDirectory filename (TransferError True) fsys
        = (Interrupted (basename w filename), fsys))"
  by (simp add: downloadRoute_def)

theorem downloadRoute_cases_witness:
  "downloadRoute (demoWorld quietRun []) noDirectory (str ''gone.mp4'') SentAll
       [demoJoin (str ''a.mp4'') \<mapsto> [1, 2, 3]]
     = (Json 404 (str ''File not found or has expired.''), [demoJoin (str ''a.mp4'') \<mapsto> [1, 2, 3]])
   \<and> downloadRoute (demoWorld quietRun []) (\<lambda>p. p = demoJoin (str ''sub'')) (str ''sub'') SentAll
       [demoJoin (str ''a.mp4'') \<mapsto> [1, 2, 3]]
     = (Json 500 (str ''File download failed''), [demoJoin (str ''a.mp4'') \<mapsto> [1, 2, 3]])
   \<and> downloadRoute (demoWorld quietRun []) noDirectory (str ''a.mp4'') SentAll
       [demoJoin (str ''a.mp4'') \<mapsto> [1, 2, 3]]
     = (Attachment (str ''a.mp4'') [1, 2, 3],
        [demoJoin (str ''a.mp4'') \<mapsto> [1, 2, 3]](demoJoin (str ''a.mp4'') := None))
   \<and> downloadRoute (demoWorld quietRun []) noDirectory (str ''a.mp4'') (SentPart [2])
       [demoJoin (str ''a.mp4'') \<mapsto> [1, 2, 3]]
     = (Attachment (str ''a.mp4'') [2],
        [demoJoin (str ''a.mp4'') \<mapsto> [1, 2, 3]](demoJoin (str ''a.mp4'') := None))
   \<and> downloadRoute (demoWorld quietRun []) noDirectory (str ''a.mp4'') (TransferError False)
       [demoJoin (str ''a.mp4'') \<mapsto> [1, 2, 3]]
     = (Json 500 (str ''File download failed''), [demoJoin (str ''a.mp4'') \<mapsto> [1, 2, 3]])"
proof -
  let ?w = "demoWorld quietRun []"
  let ?fs = "[demoJoin (str ''a.mp4'') \<mapsto> [1::nat, 2, 3]]"
  have j: "joinDownloads ?w = demoJoin" and b: "basename ?w (str ''a.mp4'') = str ''a.mp4''"
    by (simp_all add: demoWorld_def demoBasename_def str_def)
  have gone: "?fs (joinDownloads ?w (str ''gone.mp4'')) = None
                \<and> \<not> noDirectory (joinDownloads ?w (str ''gone.mp4''))"
    by (simp add: j demoJoin_def noDirectory_def str_def)
  have dir: "?fs (joinDownloads ?w (str ''sub'')) = None
                \<and> (\<lambda>p. p = demoJoin (str ''sub'')) (joinDownloads ?w (str ''sub''))"
    by (simp add: j demoJoin_def str_def)
  have there: "?fs (joinDownloads ?w (str ''a.mp4'')) = Some [1, 2, 3]"
    by (simp add: j)
  note r1 = downloadRoute_cases [where w = ?w and fsys = ?fs and filename = "str ''gone.mp4''"
      and isDirectory = noDirectory and t = SentAll, THEN conjunct1, THEN mp, OF gone]
  note r2 = downloadRoute_cases [where w = ?w and fsys = ?fs and filename = "str ''sub''"
      and isDirectory = "\<lambda>p. p = demoJoin (str ''sub'')" and t = SentAll,
      THEN conjunct2, THEN conjunct1, THEN mp, OF dir]
  note r3 = downloadRoute_cases [where w = ?w and fsys = ?fs and filename = "str ''a.mp4''"
      and isDirectory = noDirectory and body = "[2]" and bytes = "[1, 2, 3]",
      THEN conjunct2, THEN conjunct2, THEN mp, OF there]
  show ?thesis
    using r1 r2 r3 by (simp add: j b)
qed

section \<open>C7: the format selector for a requested height\<close>

lemma splitOn_no_delim: "d \<notin> set s \<Longrightarrow> splitOn d s = [s]"
  by (induction s) auto

lemma splitOn_append: "d \<notin> set a \<Longrightarrow> splitOn d (a @ d # b) = a # splitOn d b"
  by (induction a) auto

text \<open>
  Claim C7, as stated: for a height such as \<^verbatim>\<open>720p\<close> the selector falls back to the best
  overall stream, unconstrained by container or height, which the tool writes \<^verbatim>\<open>best\<close>.
  It fails: for \<^verbatim>\<open>720p\<close> and \<^verbatim>\<open>mp4\<close> the selector has two alternatives and neither is
  \<^verbatim>\<open>best\<close>; the last one keeps both constraints.
\<close>

theorem formatSelector_fallback_counterexample:
  "selectorAlternatives (formatSelector (str ''720p'') (str ''mp4''))
     = [str ''bestvideo[height<=720][ext=mp4]+bestaudio[ext=m4a]'',
        str ''best[height<=720][ext=mp4]'']
   \<and> str ''best'' \<notin> set (selectorAlternatives (formatSelector (str ''720p'') (str ''mp4'')))"
  by (simp add: selectorAlternatives_def formatSelector_def str_def)

text \<open>
  Claim C7, amended. For a video target (\<^verbatim>\<open>mp4\<close> or \<^verbatim>\<open>webm\<close>) and a quality that is a
  height in digits followed by \<^verbatim>\<open>p\<close>, the selector has exactly two alternatives, in this
  order: the best video stream at or below the height in the requested container,
  merged with the best \<^verbatim>\<open>m4a\<close> audio stream; then the best combined stream at or below
  the same height in the same container.
\<close>

theorem formatSelector_height:
  assumes "list_all isDigit height" and "format = str ''mp4'' \<or> format = str ''webm''"
  shows "selectorAlternatives (formatSelector (height @ str ''p'') format)
     = [str ''bestvideo[height<='' @ height @ str ''][ext='' @ format @ str '']+bestaudio[ext=m4a]'',
        str ''best[height<='' @ height @ str ''][ext='' @ format @ str '']'']"
proof -
  have nop: "112 \<notin> set height" and noslash: "47 \<notin> set height"
    using assms(1) by (auto simp: list_all_iff isDigit_def)
  have rm: "remove1 112 (height @ str ''p'') = height"
    using nop by (simp add: remove1_append str_def)
  have notauto: "height @ str ''p'' \<noteq> str ''auto''"
  proof
    assume "height @ str ''p'' = str ''auto''"
    then have "last (height @ str ''p'') = last (str ''auto'')" by simp
    then show False by (simp add: str_def)
  qed
  have f: "47 \<notin> set format" using assms(2) by (auto simp: str_def)
  let ?a = "str ''bestvideo[height<='' @ height @ str ''][ext='' @ format @ str '']+bestaudio[ext=m4a]''"
  let ?b = "str ''best[height<='' @ height @ str ''][ext='' @ format @ str '']''"
  have a: "47 \<notin> set ?a" using noslash f by (simp add: str_def)
  have b: "47 \<notin> set ?b" using noslash f by (simp add: str_def)
  have "formatSelector (height @ str ''p'') format = ?a @ 47 # ?b"
    using notauto unfolding formatSelector_def Let_def rm by (simp add: str_def)
  then show ?thesis
    by (simp only: selectorAlternatives_def splitOn_append [OF a] splitOn_no_delim [OF b])
qed

theorem formatSelector_height_witness:
  "list_all isDigit (str ''1080'') \<and> (str ''webm'' = str ''mp4'' \<or> str ''webm'' = str ''webm'')
   \<and> selectorAlternatives (formatSelector (str ''1080p'') (str ''webm''))
     = [str ''bestvideo[height<=1080][ext=webm]+bestaudio[ext=m4a]'',
        str ''best[height<=1080][ext=webm]'']"
proof -
  have d: "list_all isDigit (str ''1080'')" by (simp add: isDigit_def str_def)
  have f: "str ''webm'' = str ''mp4'' \<or> str ''webm'' = str ''webm''" by simp
  show ?thesis using d formatSelector_height [OF d f] by (simp add: str_def)
qed

section \<open>C9: the progress parser\<close>

lemma stripLiteral_iff: "stripLiteral p s = Some r \<longleftrightarrow> s = p @ r"
  by (induction p s rule: stripLiteral.induct) auto

lemma takeWhile_stop:
  "list_all P xs \<Longrightarrow> (rest = [] \<or> \<not> P (hd rest)) \<Longrightarrow> takeWhile P (xs @ rest) = xs"
  by (induction xs) (cases rest; auto)+

lemma dropWhile_stop:
  "list_all P xs \<Longrightarrow> (rest = [] \<or> \<not> P (hd rest)) \<Longrightarrow> dropWhile P (xs @ rest) = rest"
  by (induction xs) (cases rest; auto)+

lemma list_all_takeWhile: "list_all P (takeWhile P xs)"
  by (induction xs) auto

lemma matchHere_complete:
  assumes "progressPattern t p"
  shows "matchHere t = Some p"
proof -
  from assms obtain ws d1 d2 rest where
    t: "t = str ''[download]'' @ ws @ d1 @ [46] @ d2 @ str ''% of'' @ rest"
    and ws: "ws \<noteq> []" "list_all isWhiteSpace ws"
    and d1: "d1 \<noteq> []" "list_all isDigit d1"
    and d2: "d2 \<noteq> []" "list_all isDigit d2"
    and p: "p = d1 @ [46] @ d2"
    unfolding progressPattern_def by blast
  have s1: "stripLiteral (str ''[download]'') t = Some (ws @ d1 @ [46] @ d2 @ str ''% of'' @ rest)"
    by (simp add: stripLiteral_iff t)
  have hd1: "\<not> isWhiteSpace (hd (d1 @ [46] @ d2 @ str ''% of'' @ rest))"
    using d1 by (cases d1) (auto simp: isWhiteSpace_def isDigit_def)
  have tw1: "takeWhile isWhiteSpace (ws @ d1 @ [46] @ d2 @ str ''% of'' @ rest) = ws"
    using ws(2) hd1 by (rule_tac takeWhile_stop) auto
  have dw1: "dropWhile isWhiteSpace (ws @ d1 @ [46] @ d2 @ str ''% of'' @ rest)
               = d1 @ [46] @ d2 @ str ''% of'' @ rest"
    using ws(2) hd1 by (rule_tac dropWhile_stop) auto
  have tw2: "takeWhile isDigit (d1 @ [46] @ d2 @ str ''% of'' @ rest) = d1"
    using d1(2) by (rule_tac takeWhile_stop) (auto simp: isDigit_def)
  have dw2: "dropWhile isDigit (d1 @ [46] @ d2 @ str ''% of'' @ rest)
               = 46 # d2 @ str ''% of'' @ rest"
    using dropWhile_stop [OF d1(2), of "[46] @ d2 @ str ''% of'' @ rest"]
    by (simp add: isDigit_def)
  have tw3: "takeWhile isDigit (d2 @ str ''% of'' @ rest) = d2"
    using d2(2) by (rule_tac takeWhile_stop) (auto simp: isDigit_def str_def)
  have dw3: "dropWhile isDigit (d2 @ str ''% of'' @ rest) = str ''% of'' @ rest"
    using d2(2) by (rule_tac dropWhile_stop) (auto simp: isDigit_def str_def)
  have sw: "startsWith (str ''% of'' @ rest) (str ''% of'')"
    by (simp add: startsWith_prefix)
  show ?thesis
    unfolding matchHere_def s1 option.case Let_def tw1 dw1 tw2 dw2 list.case tw3 dw3
    using ws(1) d1(1) d2(1) sw p by simp
qed

lemma matchHere_sound:
  assumes "matchHere t = Some p"
  shows "progressPattern t p"
proof -
  from assms obtain r1 where r1: "stripLiteral (str ''[download]'') t = Some r1"
    by (auto simp: matchHere_def split: option.splits)
  define ws where "ws = takeWhile isWhiteSpace r1"
  define r2 where "r2 = dropWhile isWhiteSpace r1"
  define d1 where "d1 = takeWhile isDigit r2"
  define r3 where "r3 = dropWhile isDigit r2"
  from assms r1 have ne: "ws \<noteq> []" "d1 \<noteq> []"
    by (auto simp: matchHere_def Let_def ws_def d1_def r2_def split: if_splits)
  from assms r1 ne obtain r4 where r3: "r3 = 46 # r4"
    by (auto simp: matchHere_def Let_def ws_def d1_def r2_def r3_def
             split: if_splits list.splits)
  define d2 where "d2 = takeWhile isDigit r4"
  define r5 where "r5 = dropWhile isDigit r4"
  from assms r1 ne r3 have fin: "d2 \<noteq> []" "startsWith r5 (str ''% of'')" "p = d1 @ [46] @ d2"
    by (auto simp: matchHere_def Let_def ws_def d1_def r2_def r3_def d2_def r5_def
             split: if_splits list.splits)
  from fin(2) obtain rest where r5: "r5 = str ''% of'' @ rest"
    by (auto simp: startsWith_prefix prefix_def)
  have "t = str ''[download]'' @ r1" using r1 by (simp add: stripLiteral_iff)
  moreover have "r1 = ws @ r2" by (simp add: ws_def r2_def)
  moreover have "r2 = d1 @ r3" by (simp add: d1_def r3_def)
  moreover have "r4 = d2 @ r5" by (simp add: d2_def r5_def)
  ultimately have t: "t = str ''[download]'' @ ws @ d1 @ [46] @ d2 @ str ''% of'' @ rest"
    using r3 r5 by simp
  have "list_all isWhiteSpace ws" "list_all isDigit d1" "list_all isDigit d2"
    by (simp_all add: ws_def d1_def d2_def list_all_takeWhile)
  with t ne fin show ?thesis
    unfolding progressPattern_def by blast
qed

lemma matchHere_iff: "matchHere t = Some p \<longleftrightarrow> progressPattern t p"
  using matchHere_complete matchHere_sound by blast

lemma progressMatch_None: "progressMatch s = None \<longleftrightarrow> (\<forall>i p. \<not> occursAt s i p)"
proof (induction s)
  case Nil
  then show ?case
    by (auto simp: occursAt_def matchHere_iff [symmetric])
next
  case (Cons c cs)
  have shift: "occursAt (c # cs) (Suc i) p \<longleftrightarrow> occursAt cs i p" for i p
    by (simp add: occursAt_def)
  have zero: "occursAt (c # cs) 0 p \<longleftrightarrow> matchHere (c # cs) = Some p" for p
    by (simp add: occursAt_def matchHere_iff)
  show ?case
  proof (cases "matchHere (c # cs)")
    case None
    have "(\<forall>i p. \<not> occursAt (c # cs) i p) \<longleftrightarrow> (\<forall>i p. \<not> occursAt cs i p)"
    proof
      assume a: "\<forall>i p. \<not> occursAt (c # cs) i p"
      show "\<forall>i p. \<not> occursAt cs i p"
        using a shift by blast
    next
      assume a: "\<forall>i p. \<not> occursAt cs i p"
      show "\<forall>i p. \<not> occursAt (c # cs) i p"
      proof (intro allI)
        fix i p show "\<not> occursAt (c # cs) i p"
          using a shift zero None by (cases i) auto
      qed
    qed
    with None Cons show ?thesis by simp
  next
    case (Some m)
    then have "occursAt (c # cs) 0 m" using zero by simp
    with Some show ?thesis by auto
  qed
qed

lemma progressMatch_Some: "progressMatch s = Some p \<longleftrightarrow> firstPercent s p"
proof (induction s)
  case Nil
  show ?case
    by (auto simp: firstPercent_def occursAt_def matchHere_iff)
next
  case (Cons c cs)
  have shift: "occursAt (c # cs) (Suc i) q \<longleftrightarrow> occursAt cs i q" for i q
    by (simp add: occursAt_def)
  have zero: "occursAt (c # cs) 0 q \<longleftrightarrow> matchHere (c # cs) = Some q" for q
    by (simp add: occursAt_def matchHere_iff)
  show ?case
  proof (cases "matchHere (c # cs)")
    case (Some m)
    have "firstPercent (c # cs) p \<longleftrightarrow> p = m"
    proof
      assume "firstPercent (c # cs) p"
      then obtain i where i: "occursAt (c # cs) i p" "\<forall>j q. occursAt (c # cs) j q \<longrightarrow> i \<le> j"
        unfolding firstPercent_def by blast
      from Some zero have "occursAt (c # cs) 0 m" by simp
      with i(2) have "i = 0" by fastforce
      with i(1) zero Some show "p = m" by simp
    next
      assume "p = m"
      with Some zero have "occursAt (c # cs) 0 p" by simp
      then show "firstPercent (c # cs) p"
        unfolding firstPercent_def by (intro exI [of _ 0]) simp
    qed
    with Some show ?thesis by auto
  next
    case None
    have nz: "\<not> occursAt (c # cs) 0 q" for q using None zero by simp
    have "firstPercent (c # cs) p \<longleftrightarrow> firstPercent cs p"
    proof
      assume "firstPercent (c # cs) p"
      then obtain i where i: "occursAt (c # cs) i p" "\<forall>j q. occursAt (c # cs) j q \<longrightarrow> i \<le> j"
        unfolding firstPercent_def by blast
      from i(1) nz obtain k where k: "i = Suc k" by (cases i) auto
      have "occursAt cs k p" using i(1) k shift by simp
      moreover have "\<forall>j q. occursAt cs j q \<longrightarrow> k \<le> j"
      proof (intro allI impI)
        fix j q assume "occursAt cs j q"
        then have "occursAt (c # cs) (Suc j) q" using shift by simp
        with i(2) have "i \<le> Suc j" by blast
        with k show "k \<le> j" by simp
      qed
      ultimately show "firstPercent cs p" unfolding firstPercent_def by blast
    next
      assume "firstPercent cs p"
      then obtain k where k: "occursAt cs k p" "\<forall>j q. occursAt cs j q \<longrightarrow> k \<le> j"
        unfolding firstPercent_def by blast
      have "occursAt (c # cs) (Suc k) p" using k(1) shift by simp
      moreover have "\<forall>j q. occursAt (c # cs) j q \<longrightarrow> Suc k \<le> j"
      proof (intro allI impI)
        fix j q assume a: "occursAt (c # cs) j q"
        with nz obtain j' where j': "j = Suc j'" by (cases j) auto
        with a shift have "occursAt cs j' q" by simp
        with k(2) have "k \<le> j'" by blast
        with j' show "Suc k \<le> j" by simp
      qed
      ultimately show "firstPercent (c # cs) p" unfolding firstPercent_def by blast
    qed
    with None Cons show ?thesis by simp
  qed
qed

lemma progressPattern_nonempty: "progressPattern t p \<Longrightarrow> p \<noteq> []"
  by (auto simp: progressPattern_def)

lemma firstPercent_nonempty: "firstPercent s p \<Longrightarrow> p \<noteq> []"
  by (auto simp: firstPercent_def occursAt_def dest: progressPattern_nonempty)

lemmas regex_eval = matchHere_def str_def isWhiteSpace_def isDigit_def Let_def

text \<open>
  Claim C9. The stdout handler of \<^verbatim>\<open>runYtDlp\<close>, on any fragment and whatever was
  accumulated before it: when the fragment contains the percentage pattern (the
  download marker, white space, a decimal number, \<^verbatim>\<open>% of\<close>), the callback is invoked
  exactly once, with a progress update carrying \<^verbatim>\<open>parseFloat\<close> of the percentage of the
  leftmost occurrence, which exists and is unique; later occurrences in the fragment are
  not reported. When the fragment contains no occurrence, the callback is not invoked
  and the fragment is only appended to the accumulated output. The handler keeps no
  state between fragments, so every later fragment is treated the same way.
\<close>

theorem stdout_reports_first_percent:
  "(firstPercent frag p \<longrightarrow>
      ytDlpData onProgress (Stdout frag) (out, err, s)
        = (out @ frag, err, onProgress (Progress (ParseFloat p)) s))
   \<and> ((\<exists>i q. occursAt frag i q) \<longrightarrow> (\<exists>p. firstPercent frag p))
   \<and> (firstPercent frag p \<and> firstPercent frag q \<longrightarrow> p = q)
   \<and> ((\<forall>i q. \<not> occursAt frag i q) \<longrightarrow>
      ytDlpData onProgress (Stdout frag) (out, err, s) = (out @ frag, err, s))"
proof (intro conjI impI)
  assume f: "firstPercent frag p"
  then have "progressMatch frag = Some p" by (simp add: progressMatch_Some)
  with firstPercent_nonempty [OF f]
  show "ytDlpData onProgress (Stdout frag) (out, err, s)
        = (out @ frag, err, onProgress (Progress (ParseFloat p)) s)"
    by simp
next
  assume "\<exists>i q. occursAt frag i q"
  then have "progressMatch frag \<noteq> None" by (simp add: progressMatch_None)
  then obtain m where "progressMatch frag = Some m" by auto
  then show "\<exists>p. firstPercent frag p" using progressMatch_Some by blast
next
  assume "firstPercent frag p \<and> firstPercent frag q"
  then have "progressMatch frag = Some p" "progressMatch frag = Some q"
    by (simp_all add: progressMatch_Some)
  then show "p = q" by simp
next
  assume "\<forall>i q. \<not> occursAt frag i q"
  then have "progressMatch frag = None" by (simp add: progressMatch_None)
  then show "ytDlpData onProgress (Stdout frag) (out, err, s) = (out @ frag, err, s)"
    by simp
qed

theorem stdout_reports_first_percent_witness:
  "firstPercent (str ''[download]   3.5% of 4.20MiB'') (str ''3.5'')
   \<and> firstPercent (str ''[download]  99.9% of 4.20MiB [download] 100.0% of 4.20MiB'') (str ''99.9'')
   \<and> ytDlpFeed (\<lambda>u l. l @ [u])
        [Stdout (str ''[download]   3.5% of 4.20MiB''),
         Stdout (str ''[download] Destination: clip.mp3''),
         Stdout (str ''[download]  99.9% of 4.20MiB [download] 100.0% of 4.20MiB'')]
        ([], [], [])
      = (str ''[download]   3.5% of 4.20MiB''
           @ str ''[download] Destination: clip.mp3''
           @ str ''[download]  99.9% of 4.20MiB [download] 100.0% of 4.20MiB'',
         [],
         [Progress (ParseFloat (str ''3.5'')), Progress (ParseFloat (str ''99.9''))])"
proof -
  let ?f1 = "str ''[download]   3.5% of 4.20MiB''"
  let ?f2 = "str ''[download] Destination: clip.mp3''"
  let ?f3 = "str ''[download]  99.9% of 4.20MiB [download] 100.0% of 4.20MiB''"
  let ?log = "\<lambda>u l. l @ [u::update]"
  have m1: "progressMatch ?f1 = Some (str ''3.5'')" by (simp add: regex_eval)
  have m2: "progressMatch ?f2 = None" by (simp add: regex_eval)
  have m3: "progressMatch ?f3 = Some (str ''99.9'')" by (simp add: regex_eval)
  have p1: "firstPercent ?f1 (str ''3.5'')" using m1 by (simp only: progressMatch_Some)
  have p2: "\<forall>i q. \<not> occursAt ?f2 i q" using m2 progressMatch_None by blast
  have p3: "firstPercent ?f3 (str ''99.9'')" using m3 by (simp only: progressMatch_Some)
  have s1: "ytDlpData ?log (Stdout ?f1) ([], [], [])
              = ([] @ ?f1, [], [] @ [Progress (ParseFloat (str ''3.5''))])"
    using stdout_reports_first_percent
      [where frag = ?f1 and p = "str ''3.5''" and onProgress = ?log and s = "[]"
         and out = "[]" and err = "[]"] p1
    by blast
  have s2: "ytDlpData ?log (Stdout ?f2) ([] @ ?f1, [], [] @ [Progress (ParseFloat (str ''3.5''))])
              = (([] @ ?f1) @ ?f2, [], [] @ [Progress (ParseFloat (str ''3.5''))])"
    using stdout_reports_first_percent
      [where frag = ?f2 and onProgress = ?log
         and s = "[] @ [Progress (ParseFloat (str ''3.5''))]"
         and out = "[] @ ?f1" and err = "[]"] p2
    by blast
  have s3: "ytDlpData ?log (Stdout ?f3)
              (([] @ ?f1) @ ?f2, [], [] @ [Progress (ParseFloat (str ''3.5''))])
              = ((([] @ ?f1) @ ?f2) @ ?f3, [],
                 ([] @ [Progress (ParseFloat (str ''3.5''))]) @ [Progress (ParseFloat (str ''99.9''))])"
    using stdout_reports_first_percent
      [where frag = ?f3 and p = "str ''99.9''" and onProgress = ?log
         and s = "[] @ [Progress (ParseFloat (str ''3.5''))]"
         and out = "([] @ ?f1) @ ?f2" and err = "[]"] p3
    by blast
  have "ytDlpFeed ?log [Stdout ?f1, Stdout ?f2, Stdout ?f3] ([], [], [])
          = ((([] @ ?f1) @ ?f2) @ ?f3, [],
             ([] @ [Progress (ParseFloat (str ''3.5''))]) @ [Progress (ParseFloat (str ''99.9''))])"
    by (simp only: ytDlpFeed.simps s1 s2 s3)
  then show ?thesis using p1 p3 by simp
qed

section \<open>Evaluation of the concrete worlds\<close>

lemma find_first: "P f \<Longrightarrow> \<forall>g\<in>set pre. \<not> P g \<Longrightarrow> find P (pre @ f # post) = Some f"
  by (induction pre) auto

lemma find_none: "\<forall>g\<in>set entries. \<not> P g \<Longrightarrow> find P entries = None"
  by (induction entries) auto

lemma fst_runYtDlp_ok: "exitCode p = Some 0 \<Longrightarrow> \<exists>out. fst (runYtDlp p cb s) = Inr out"
  by (auto simp: runYtDlp_def Let_def split: prod.splits)

lemmas demo_defs = demoWorld_def audioWorld_def videoWorld_def privateWorld_def demoJoin_def
  demoBasename_def demoFsError_def demoUrl_def demoId_def demoBase_def titleRun_def
  privateRun_def writingRun_def quietRun_def start_def alwaysOpen_def closedFrom_def
  noDirectory_def privateDownloadWorld_def
  emptyWorld_def

lemmas job_defs = onMessage_def downloadJob_def fetchTitle_def download_def downloadAudio_def
  downloadVideo_def locateDownloaded_def convertFile_def unlink_def finish_def validate_def
  stat_def runYtDlp_def runFFmpeg_def sendProgress_def titleArgs_def audioArgs_def videoArgs_def
  ffmpegArgs_def outputTemplate_def workingName_def sanitizeUrl_def sanitizeTitle_def
  formatSelector_def classify_def trim_def endsWith_def isAlnum_def

lemmas eval_defs = job_defs demo_defs regex_eval msg_defs

section \<open>C6: how the produced file is located\<close>

text \<open>
  Claim C6, as stated: for audio targets too, the produced file is found by scanning
  the staging directory for the one entry whose name starts with the working name, not
  by building its name in advance. It fails on the audio branch. With a thumbnail left
  beside the audio file, two entries start with the working name and a scan finds no
  single entry, yet the branch returns the path of \<^verbatim>\<open>.mp3\<close>; with \<^verbatim>\<open>.opus\<close> as the only
  entry a scan finds that entry, and the branch still returns the path of \<^verbatim>\<open>.mp3\<close>.
\<close>

theorem audio_path_counterexample:
  "fst (download (audioWorld [demoBase @ str ''.webp'', demoBase @ str ''.mp3'']) demoUrl
          (str ''mp3'') (str ''auto'') demoBase (start alwaysOpen))
     = Inr (demoJoin (demoBase @ str ''.mp3''))
   \<and> locateByPrefix [demoBase @ str ''.webp'', demoBase @ str ''.mp3''] demoBase = None
   \<and> fst (download (audioWorld [demoBase @ str ''.opus'']) demoUrl
          (str ''mp3'') (str ''auto'') demoBase (start alwaysOpen))
     = Inr (demoJoin (demoBase @ str ''.mp3''))
   \<and> locateByPrefix [demoBase @ str ''.opus''] demoBase = Some (demoBase @ str ''.opus'')"
  by (simp add: download_def downloadAudio_def runYtDlp_def sendProgress_def audioArgs_def
        outputTemplate_def locateByPrefix_def demo_defs titleArgs_def regex_eval)

text \<open>
  Claim C6, amended. For an audio target (\<^verbatim>\<open>mp3\<close>, \<^verbatim>\<open>m4a\<close>) whose download run exits with
  status 0, the path of the produced file is built in advance, as the working name, a
  point and the format, whatever the directory listing holds or whether it can be read.
  For a video target (\<^verbatim>\<open>mp4\<close>, \<^verbatim>\<open>webm\<close>) whose download run exits with status 0, the
  produced file is the first entry of the directory listing whose name starts with the
  working name: when its name ends with a point and the format it is the final file,
  otherwise it is the input of the conversion; when no entry starts with the working
  name the step fails with the not-found failure.
\<close>

theorem download_locates_file:
  "((format = str ''mp3'' \<or> format = str ''m4a'')
      \<and> exitCode (yt_dlp w (audioArgs format (outputTemplate w base) url)) = Some 0
     \<longrightarrow> fst (download (w\<lparr>readdir := r\<rparr>) url format quality base s)
           = Inr (joinDownloads w (base @ str ''.'' @ format)))
   \<and> ((format = str ''mp4'' \<or> format = str ''webm'')
      \<and> exitCode (yt_dlp w (videoArgs (formatSelector quality format) (outputTemplate w base)
                                format url)) = Some 0
      \<and> readdir w = Inr (pre @ f # post) \<and> startsWith f base
      \<and> (\<forall>g\<in>set pre. \<not> startsWith g base)
     \<longrightarrow> download w url format quality base s
           = (let s2 = snd (runYtDlp
                        (yt_dlp w (videoArgs (formatSelector quality format)
                                     (outputTemplate w base) format url))
                        sendProgress (sendProgress (Status (str ''Downloading video...'') 20) s))
              in if endsWith f (str ''.'' @ format) then (Inr (joinDownloads w f), s2)
                 else convertFile w base format (joinDownloads w f) s2))
   \<and> ((format = str ''mp4'' \<or> format = str ''webm'')
      \<and> exitCode (yt_dlp w (videoArgs (formatSelector quality format) (outputTemplate w base)
                                format url)) = Some 0
      \<and> readdir w = Inr entries \<and> (\<forall>g\<in>set entries. \<not> startsWith g base)
     \<longrightarrow> fst (download w url format quality base s) = Inl NotFound)"
proof (intro conjI impI)
  assume a: "(format = str ''mp3'' \<or> format = str ''m4a'')
      \<and> exitCode (yt_dlp w (audioArgs format (outputTemplate w base) url)) = Some 0"
  then show "fst (download (w\<lparr>readdir := r\<rparr>) url format quality base s)
           = Inr (joinDownloads w (base @ str ''.'' @ format))"
    by (auto simp: download_def downloadAudio_def outputTemplate_def runYtDlp_def Let_def
             split: prod.splits)
next
  let ?p = "yt_dlp w (videoArgs (formatSelector quality format) (outputTemplate w base) format url)"
  let ?s1 = "sendProgress (Status (str ''Downloading video...'') 20) s"
  assume a: "(format = str ''mp4'' \<or> format = str ''webm'')
      \<and> exitCode ?p = Some 0
      \<and> readdir w = Inr (pre @ f # post) \<and> startsWith f base
      \<and> (\<forall>g\<in>set pre. \<not> startsWith g base)"
  then have video: "format \<noteq> str ''mp3''" "format \<noteq> str ''m4a''"
    by (auto simp: str_def)
  from a obtain out where out: "fst (runYtDlp ?p sendProgress ?s1) = Inr out"
    using fst_runYtDlp_ok by blast
  have fnd: "find (\<lambda>g. startsWith g base) (pre @ f # post) = Some f"
    using a by (intro find_first) auto
  show "download w url format quality base s
           = (let s2 = snd (runYtDlp ?p sendProgress ?s1)
              in if endsWith f (str ''.'' @ format) then (Inr (joinDownloads w f), s2)
                 else convertFile w base format (joinDownloads w f) s2)"
    using a video out fnd
    by (cases "runYtDlp ?p sendProgress ?s1")
       (simp add: download_def downloadVideo_def locateDownloaded_def Let_def)
next
  let ?p = "yt_dlp w (videoArgs (formatSelector quality format) (outputTemplate w base) format url)"
  let ?s1 = "sendProgress (Status (str ''Downloading video...'') 20) s"
  assume a: "(format = str ''mp4'' \<or> format = str ''webm'')
      \<and> exitCode ?p = Some 0
      \<and> readdir w = Inr entries \<and> (\<forall>g\<in>set entries. \<not> startsWith g base)"
  then have video: "format \<noteq> str ''mp3''" "format \<noteq> str ''m4a''"
    by (auto simp: str_def)
  from a obtain out where out: "fst (runYtDlp ?p sendProgress ?s1) = Inr out"
    using fst_runYtDlp_ok by blast
  have fnd: "find (\<lambda>g. startsWith g base) entries = None"
    using a by (intro find_none) auto
  show "fst (download w url format quality base s) = Inl NotFound"
    using a video out fnd
    by (cases "runYtDlp ?p sendProgress ?s1")
       (simp add: download_def downloadVideo_def locateDownloaded_def Let_def)
qed

theorem download_locates_file_witness:
  "fst (download ((audioWorld [])\<lparr>readdir := Inl (str ''EACCES'')\<rparr>) demoUrl (str ''mp3'')
          (str ''auto'') demoBase (start alwaysOpen))
     = Inr (demoJoin (demoBase @ str ''.mp3''))
   \<and> fst (download (videoWorld [str ''other.mp4'', demoBase @ str ''.mp4'', demoBase @ str ''.en.vtt''])
          demoUrl (str ''mp4'') (str ''720p'') demoBase (start alwaysOpen))
     = Inr (demoJoin (demoBase @ str ''.mp4''))
   \<and> fst (download (videoWorld [str ''other.mp4'']) demoUrl (str ''mp4'') (str ''720p'') demoBase
          (start alwaysOpen))
     = Inl NotFound"
proof -
  let ?wa = "audioWorld []"
  have a1: "(str ''mp3'' = str ''mp3'' \<or> str ''mp3'' = str ''m4a'')
      \<and> exitCode (yt_dlp ?wa (audioArgs (str ''mp3'') (outputTemplate ?wa demoBase) demoUrl)) = Some 0"
    by (simp add: demo_defs audioArgs_def titleArgs_def str_def)
  have ja: "joinDownloads ?wa = demoJoin" by (simp add: audioWorld_def demoWorld_def)
  let ?wv = "videoWorld [str ''other.mp4'', demoBase @ str ''.mp4'', demoBase @ str ''.en.vtt'']"
  let ?p = "yt_dlp ?wv (videoArgs (formatSelector (str ''720p'') (str ''mp4''))
               (outputTemplate ?wv demoBase) (str ''mp4'') demoUrl)"
  have ex: "exitCode ?p = Some 0"
    by (simp add: demo_defs videoArgs_def titleArgs_def str_def)
  have v1: "(str ''mp4'' = str ''mp4'' \<or> str ''mp4'' = str ''webm'')
      \<and> exitCode ?p = Some 0
      \<and> readdir ?wv = Inr ([str ''other.mp4''] @ (demoBase @ str ''.mp4'') # [demoBase @ str ''.en.vtt''])
      \<and> startsWith (demoBase @ str ''.mp4'') demoBase
      \<and> (\<forall>g\<in>set [str ''other.mp4'']. \<not> startsWith g demoBase)"
    using ex by (simp add: videoWorld_def demoWorld_def startsWith_prefix) (simp add: demoBase_def str_def)
  have e1: "endsWith (demoBase @ str ''.mp4'') (str ''.'' @ str ''mp4'')"
    by (simp add: endsWith_def startsWith_prefix str_def)
  have jv: "joinDownloads ?wv = demoJoin" by (simp add: videoWorld_def demoWorld_def)
  let ?wn = "videoWorld [str ''other.mp4'']"
  let ?q = "yt_dlp ?wn (videoArgs (formatSelector (str ''720p'') (str ''mp4''))
               (outputTemplate ?wn demoBase) (str ''mp4'') demoUrl)"
  have n1: "(str ''mp4'' = str ''mp4'' \<or> str ''mp4'' = str ''webm'')
      \<and> exitCode ?q = Some 0
      \<and> readdir ?wn = Inr [str ''other.mp4'']
      \<and> (\<forall>g\<in>set [str ''other.mp4'']. \<not> startsWith g demoBase)"
    by (simp add: demo_defs videoArgs_def titleArgs_def str_def)
  have r1: "fst (download (?wa\<lparr>readdir := Inl (str ''EACCES'')\<rparr>) demoUrl (str ''mp3'')
                 (str ''auto'') demoBase (start alwaysOpen))
              = Inr (joinDownloads ?wa (demoBase @ str ''.'' @ str ''mp3''))"
    using download_locates_file [where w = ?wa and format = "str ''mp3''" and base = demoBase
        and url = demoUrl and r = "Inl (str ''EACCES'')" and quality = "str ''auto''"
        and s = "start alwaysOpen", THEN conjunct1, THEN mp, OF a1] .
  have r2: "download ?wv demoUrl (str ''mp4'') (str ''720p'') demoBase (start alwaysOpen)
     = (let s2 = snd (runYtDlp ?p sendProgress
                        (sendProgress (Status (str ''Downloading video...'') 20) (start alwaysOpen)))
        in if endsWith (demoBase @ str ''.mp4'') (str ''.'' @ str ''mp4'')
           then (Inr (joinDownloads ?wv (demoBase @ str ''.mp4'')), s2)
           else convertFile ?wv demoBase (str ''mp4'') (joinDownloads ?wv (demoBase @ str ''.mp4'')) s2)"
    using download_locates_file [where w = ?wv and format = "str ''mp4''" and base = demoBase
        and url = demoUrl and quality = "str ''720p''" and s = "start alwaysOpen"
        and pre = "[str ''other.mp4'']" and f = "demoBase @ str ''.mp4''"
        and post = "[demoBase @ str ''.en.vtt'']",
        THEN conjunct2, THEN conjunct1, THEN mp, OF v1] .
  have r3: "fst (download ?wn demoUrl (str ''mp4'') (str ''720p'') demoBase (start alwaysOpen))
              = Inl NotFound"
    using download_locates_file [where w = ?wn and format = "str ''mp4''" and base = demoBase
        and url = demoUrl and quality = "str ''720p''" and s = "start alwaysOpen"
        and entries = "[str ''other.mp4'']",
        THEN conjunct2, THEN conjunct2, THEN mp, OF n1] .
  have r2': "fst (download ?wv demoUrl (str ''mp4'') (str ''720p'') demoBase (start alwaysOpen))
              = Inr (demoJoin (demoBase @ str ''.mp4''))"
    unfolding r2 Let_def using e1 jv by simp
  have r1': "fst (download (?wa\<lparr>readdir := Inl (str ''EACCES'')\<rparr>) demoUrl (str ''mp3'')
                 (str ''auto'') demoBase (start alwaysOpen))
              = Inr (demoJoin (demoBase @ str ''.mp3''))"
    unfolding r1 ja by (simp add: str_def)
  show ?thesis
    using r1' r2' r3 by (intro conjI)
qed

section \<open>Traces: what a run hands to the send helper\<close>

lemma deliveredFrom_append:
  "deliveredFrom r k (us @ vs) = deliveredFrom r k us @ deliveredFrom r (k + length us) vs"
  by (induction us arbitrary: k) auto

lemma set_deliveredFrom: "set (deliveredFrom r k us) \<subseteq> set us"
  by (induction us arbitrary: k) auto

lemma list_all_deliveredFrom: "list_all P us \<Longrightarrow> list_all P (deliveredFrom r k us)"
  using set_deliveredFrom [of r k us] by (auto simp: list_all_iff)

lemma emits_refl: "emits [] s s"
  by (simp add: emits_def)

lemma emits_trans: "emits us s t \<Longrightarrow> emits vs t u \<Longrightarrow> emits (us @ vs) s u"
  by (simp add: emits_def deliveredFrom_append)

lemma emits_sendProgress: "emits [u] s (sendProgress u s)"
  by (simp add: emits_def sendProgress_def Let_def)

lemma emits_files [simp]: "emits us s (t\<lparr>files := F\<rparr>) = emits us s t"
  by (simp add: emits_def)

lemma emits_then_send: "emits us s t \<Longrightarrow> emits (us @ [u]) s (sendProgress u t)"
  using emits_trans emits_sendProgress by blast

lemma emits_send_then: "emits us (sendProgress u s) t \<Longrightarrow> emits (u # us) s t"
  using emits_trans [OF emits_sendProgress, of us u s t] by simp

lemma grows_emits: "grows P s t \<longleftrightarrow> (\<exists>us. emits us s t \<and> list_all P us)"
  by (auto simp: grows_def emits_def)

lemma emits_grows: "emits us s t \<Longrightarrow> list_all P us \<Longrightarrow> grows P s t"
  by (auto simp: grows_emits)

lemma grows_refl: "grows P s s"
  by (auto simp: grows_emits intro: exI [of _ "[]"] emits_refl)

lemma grows_trans:
  assumes "grows P s t" and "grows P t u"
  shows "grows P s u"
proof -
  from assms obtain us vs where "emits us s t" "list_all P us" "emits vs t u" "list_all P vs"
    by (auto simp: grows_emits)
  then have "emits (us @ vs) s u" "list_all P (us @ vs)"
    using emits_trans by auto
  then show ?thesis unfolding grows_emits by blast
qed

lemma grows_sendProgress: "P u \<Longrightarrow> grows P s (sendProgress u s)"
  using emits_grows [OF emits_sendProgress, of P u s] by simp

lemma grows_files [simp]: "grows P s (t\<lparr>files := F\<rparr>) = grows P s t"
  by (simp add: grows_def)

lemma grows_send_then: "P u \<Longrightarrow> grows P (sendProgress u s) t \<Longrightarrow> grows P s t"
  using grows_sendProgress grows_trans by blast

lemma grows_then_send: "grows P s t \<Longrightarrow> P u \<Longrightarrow> grows P s (sendProgress u t)"
  using grows_sendProgress grows_trans by blast

lemma grows_callsD:
  "grows P s t \<Longrightarrow> \<exists>us. calls t = calls s @ us \<and> list_all P us
      \<and> sent t = sent s @ deliveredFrom (socket s) (length (calls s)) us \<and> socket t = socket s"
  by (auto simp: grows_def)

lemma progressMatch_nonempty: "progressMatch d = Some m \<Longrightarrow> m \<noteq> []"
  using progressMatch_Some firstPercent_nonempty by blast

lemma ytDlpData_emits:
  "ytDlpData sendProgress c (out, err, s) = (out', err', s')
   \<Longrightarrow> emits (forwarded [c]) s s' \<and> files s' = files s
       \<and> err' = err @ stderrOf [c] \<and> out' = out @ stdoutOf [c]"
  by (cases c)
     (auto simp: emits_refl emits_sendProgress files_sendProgress
           dest: progressMatch_nonempty split: option.splits if_splits)

lemma forwarded_Cons: "forwarded (c # cs) = forwarded [c] @ forwarded cs"
  by (cases c) auto

lemma stderrOf_Cons: "stderrOf (c # cs) = stderrOf [c] @ stderrOf cs"
  by (cases c) auto

lemma stdoutOf_Cons: "stdoutOf (c # cs) = stdoutOf [c] @ stdoutOf cs"
  by (cases c) auto

lemma ytDlpFeed_emits:
  "ytDlpFeed sendProgress cs (out, err, s) = (out', err', s')
   \<Longrightarrow> emits (forwarded cs) s s' \<and> files s' = files s
       \<and> err' = err @ stderrOf cs \<and> out' = out @ stdoutOf cs"
proof (induction cs arbitrary: out err s)
  case Nil
  then show ?case by (simp add: emits_refl)
next
  case (Cons c cs)
  obtain o1 e1 s1 where step: "ytDlpData sendProgress c (out, err, s) = (o1, e1, s1)"
    by (metis prod_cases3)
  from ytDlpData_emits [OF step]
  have a: "emits (forwarded [c]) s s1" "files s1 = files s" "e1 = err @ stderrOf [c]"
    "o1 = out @ stdoutOf [c]"
    by auto
  from Cons.prems step have "ytDlpFeed sendProgress cs (o1, e1, s1) = (out', err', s')"
    by simp
  from Cons.IH [OF this]
  have b: "emits (forwarded cs) s1 s'" "files s' = files s1" "err' = e1 @ stderrOf cs"
    "out' = o1 @ stdoutOf cs"
    by auto
  have "emits (forwarded (c # cs)) s s'"
    using emits_trans [OF a(1) b(1)] by (simp add: forwarded_Cons [symmetric])
  moreover have "err' = err @ stderrOf (c # cs)"
    using a(3) b(3) by (simp add: stderrOf_Cons [of c cs])
  moreover have "out' = out @ stdoutOf (c # cs)"
    using a(4) b(4) by (simp add: stdoutOf_Cons [of c cs])
  ultimately show ?case using a(2) b(2) by simp
qed

lemma runYtDlp_emits:
  assumes "runYtDlp p sendProgress s = (r, s')"
  shows "emits (forwarded (chunks p)) s s'"
    and "files s' = effect p (files s)"
    and "exitCode p = Some 0 \<Longrightarrow> r = Inr (stdoutOf (chunks p))"
    and "exitCode p \<noteq> Some 0 \<Longrightarrow> r = Inl (ProcessFailure (failureText p))"
proof -
  obtain o1 e1 s1 where feed: "ytDlpFeed sendProgress (chunks p) ([], [], s) = (o1, e1, s1)"
    by (metis prod_cases3)
  from ytDlpFeed_emits [OF feed]
  have a: "emits (forwarded (chunks p)) s s1" "files s1 = files s" "e1 = stderrOf (chunks p)"
    "o1 = stdoutOf (chunks p)"
    by auto
  from assms feed have s': "s' = s1\<lparr>files := effect p (files s1)\<rparr>"
    by (auto simp: runYtDlp_def Let_def split: if_splits)
  show "emits (forwarded (chunks p)) s s'" using a(1) s' by simp
  show "files s' = effect p (files s)" using a(2) s' by simp
  show "exitCode p = Some 0 \<Longrightarrow> r = Inr (stdoutOf (chunks p))"
    using assms feed a(4) by (auto simp: runYtDlp_def Let_def)
  show "exitCode p \<noteq> Some 0 \<Longrightarrow> r = Inl (ProcessFailure (failureText p))"
    using assms feed a(3) by (auto simp: runYtDlp_def Let_def failureText_def)
qed

lemma runYtDlp_result:
  "fst (runYtDlp p sendProgress s)
     = (if exitCode p = Some 0 then Inr (stdoutOf (chunks p))
        else Inl (ProcessFailure (failureText p)))"
  using runYtDlp_emits(3,4) [of p s]
  by (cases "runYtDlp p sendProgress s") auto

lemma ffmpegFeed_grows:
  "ffmpegFeed sendProgress cs (err, s) = (err', s')
   \<Longrightarrow> grows (\<lambda>u. u = Progress (Num 90)) s s' \<and> files s' = files s"
proof (induction cs arbitrary: err s)
  case Nil
  then show ?case by (simp add: grows_refl)
next
  case (Cons c cs)
  obtain e1 s1 where step: "ffmpegData sendProgress c (err, s) = (e1, s1)"
    by (metis surj_pair)
  have a: "grows (\<lambda>u. u = Progress (Num 90)) s s1 \<and> files s1 = files s"
    using step
    by (cases c) (auto simp: grows_refl files_sendProgress intro!: grows_sendProgress
                        split: if_splits)
  from Cons.prems step have "ffmpegFeed sendProgress cs (e1, s1) = (err', s')" by simp
  from Cons.IH [OF this] a show ?case using grows_trans by auto
qed

lemma runFFmpeg_grows:
  assumes "runFFmpeg p sendProgress s = (r, s')"
  shows "grows (\<lambda>u. u = Progress (Num 90)) s s'" and "files s' = effect p (files s)"
proof -
  obtain e1 s1 where feed: "ffmpegFeed sendProgress (chunks p) ([], s) = (e1, s1)"
    by (metis surj_pair)
  from ffmpegFeed_grows [OF feed]
  have a: "grows (\<lambda>u. u = Progress (Num 90)) s s1" "files s1 = files s"
    by auto
  from assms feed have s': "s' = s1\<lparr>files := effect p (files s1)\<rparr>"
    by (auto simp: runFFmpeg_def Let_def split: if_splits)
  show "grows (\<lambda>u. u = Progress (Num 90)) s s'" using a(1) s' by simp
  show "files s' = effect p (files s)" using a(2) s' by simp
qed

lemma grows_mono: "grows P s t \<Longrightarrow> (\<And>u. P u \<Longrightarrow> Q u) \<Longrightarrow> grows Q s t"
  by (auto simp: grows_def list_all_iff)

section \<open>Every step of the job hands over allowed updates only\<close>

lemma forwarded_provenance:
  "u \<in> set (forwarded cs) \<Longrightarrow>
     (\<exists>d m. Stdout d \<in> set cs \<and> progressMatch d = Some m \<and> u = Progress (ParseFloat m))
     \<or> (\<exists>d. Stderr d \<in> set cs \<and> includesStr d (str ''ERROR:'') \<and> u = ErrorUpdate d)"
proof (induction cs)
  case Nil
  then show ?case by simp
next
  case (Cons c cs)
  then show ?case
    by (cases c) (auto split: option.splits if_splits)
qed

lemma forwarded_allowed:
  assumes "p \<in> set (jobRuns w url format quality)"
  shows "list_all (allowed w url format quality) (forwarded (chunks p))"
  unfolding list_all_iff
proof
  fix u assume "u \<in> set (forwarded (chunks p))"
  from forwarded_provenance [OF this] assms show "allowed w url format quality u"
    by (elim disjE exE conjE) (simp, blast)+
qed

lemma runYtDlp_allowed:
  assumes "runYtDlp p sendProgress s = (r, s')" and "p \<in> set (jobRuns w url format quality)"
  shows "grows (allowed w url format quality) s s'"
  using emits_grows [OF runYtDlp_emits(1) [OF assms(1)] forwarded_allowed [OF assms(2)]] .

lemma runFFmpeg_allowed:
  "runFFmpeg p sendProgress s = (r, s') \<Longrightarrow> grows (allowed w url format quality) s s'"
  by (rule grows_mono [OF runFFmpeg_grows(1)]) auto

lemma titleRun_in: "titleRunOf w url \<in> set (jobRuns w url format quality)"
  and audioRun_in: "audioRunOf w url format \<in> set (jobRuns w url format quality)"
  and videoRun_in: "videoRunOf w url format quality \<in> set (jobRuns w url format quality)"
  by (simp_all add: jobRuns_def)

lemma startsWith_append [simp]: "startsWith (b @ x) b"
  by (simp add: startsWith_prefix)

lemma find_holds: "find P xs = Some x \<Longrightarrow> P x"
  by (induction xs) (auto split: if_splits)

lemma fetchTitle_allowed:
  assumes "fetchTitle w url s = (r, s')"
  shows "grows (allowed w url format quality) s s'"
    and "\<And>t. r = Inr t \<Longrightarrow> t = titleOf w url"
proof -
  show "grows (allowed w url format quality) s s'"
  proof (cases "mkdirError w")
    case (Some m)
    with assms show ?thesis by (simp add: fetchTitle_def grows_refl)
  next
    case None
    obtain r1 s1 where run: "runYtDlp (titleRunOf w url) sendProgress s = (r1, s1)"
      by (metis surj_pair)
    with assms None have "s' = s1"
      by (auto simp: fetchTitle_def titleRunOf_def split: sum.splits)
    with runYtDlp_allowed [OF run titleRun_in] show ?thesis by simp
  qed
  fix t assume t: "r = Inr t"
  with assms have none: "mkdirError w = None"
    by (auto simp: fetchTitle_def split: option.splits)
  obtain r1 s1 where run: "runYtDlp (titleRunOf w url) sendProgress s = (r1, s1)"
    by (metis surj_pair)
  with assms none t have r1: "r1 = Inr (stdoutOf (chunks (titleRunOf w url)))"
    using runYtDlp_emits(3,4) [OF run]
    by (cases "exitCode (titleRunOf w url) = Some 0")
       (auto simp: fetchTitle_def titleRunOf_def)
  with assms none run t show "t = titleOf w url"
    by (auto simp: fetchTitle_def titleRunOf_def titleOf_def)
qed

lemma downloadAudio_allowed:
  assumes "downloadAudio w url format (jobBase w url) s = (r, s')"
  shows "grows (allowed w url format quality) s s'"
    and "\<And>p. r = Inr p \<Longrightarrow>
           \<exists>name. startsWith name (jobBase w url) \<and> p = joinDownloads w name"
proof -
  let ?s1 = "sendProgress (Status (str ''Downloading audio...'') 20) s"
  obtain r2 s2 where run: "runYtDlp (audioRunOf w url format) sendProgress ?s1 = (r2, s2)"
    by (metis surj_pair)
  with assms have s': "s' = s2"
    by (auto simp: downloadAudio_def audioRunOf_def Let_def split: sum.splits)
  with grows_send_then [OF _ runYtDlp_allowed [OF run audioRun_in]]
  show "grows (allowed w url format quality) s s'"
    by simp
  fix p assume "r = Inr p"
  with assms run have "p = joinDownloads w (jobBase w url @ str ''.'' @ format)"
    by (auto simp: downloadAudio_def audioRunOf_def Let_def split: sum.splits)
  then show "\<exists>name. startsWith name (jobBase w url) \<and> p = joinDownloads w name"
    by (intro exI [of _ "jobBase w url @ str ''.'' @ format"]) simp
qed

lemma unlink_grows: "unlink w p s = (r, s') \<Longrightarrow> grows P s s'"
  by (auto simp: unlink_def grows_refl split: option.splits)

lemma convertFile_allowed:
  assumes "convertFile w (jobBase w url) format finalPath s = (r, s')"
  shows "grows (allowed w url format quality) s s'"
    and "\<And>p. r = Inr p \<Longrightarrow>
           \<exists>name. startsWith name (jobBase w url) \<and> p = joinDownloads w name"
proof -
  let ?base = "jobBase w url"
  let ?s1 = "sendProgress (Status (str ''Converting file...'') 80) s"
  let ?p = "ffmpeg w (ffmpegArgs finalPath (joinDownloads w (?base @ str ''_converted.'' @ format)))"
  obtain r2 s2 where run: "runFFmpeg ?p sendProgress ?s1 = (r2, s2)"
    by (metis surj_pair)
  obtain r3 s3 where ul: "unlink w finalPath s2 = (r3, s3)"
    by (metis surj_pair)
  have a: "grows (allowed w url format quality) s s2"
    using grows_send_then [OF _ runFFmpeg_allowed [OF run, of w url format quality]] by simp
  have b: "grows (allowed w url format quality) s2 s3" using unlink_grows [OF ul] .
  from assms run ul have "s' = s2 \<or> s' = s3"
    by (auto simp: convertFile_def Let_def split: sum.splits)
  with a b grows_trans show "grows (allowed w url format quality) s s'" by blast
  fix p assume "r = Inr p"
  with assms run ul have "p = joinDownloads w (?base @ str ''_converted.'' @ format)"
    by (auto simp: convertFile_def Let_def split: sum.splits)
  then show "\<exists>name. startsWith name ?base \<and> p = joinDownloads w name"
    by (intro exI [of _ "?base @ str ''_converted.'' @ format"]) simp
qed

lemma locateDownloaded_allowed:
  assumes "locateDownloaded w (jobBase w url) format s = (r, s')"
  shows "grows (allowed w url format quality) s s'"
    and "\<And>p. r = Inr p \<Longrightarrow>
           \<exists>name. startsWith name (jobBase w url) \<and> p = joinDownloads w name"
proof -
  let ?base = "jobBase w url"
  show "grows (allowed w url format quality) s s'"
    using assms
    by (auto simp: locateDownloaded_def Let_def grows_refl
             split: sum.splits option.splits if_splits dest: convertFile_allowed(1))
  fix p assume p: "r = Inr p"
  from assms p obtain entries f where
    f: "readdir w = Inr entries" "find (\<lambda>g. startsWith g ?base) entries = Some f"
    by (auto simp: locateDownloaded_def split: sum.splits option.splits)
  show "\<exists>name. startsWith name ?base \<and> p = joinDownloads w name"
  proof (cases "endsWith f (str ''.'' @ format)")
    case True
    with assms p f have "p = joinDownloads w f"
      by (auto simp: locateDownloaded_def Let_def)
    with find_holds [OF f(2)] show ?thesis by blast
  next
    case False
    with assms f have "convertFile w ?base format (joinDownloads w f) s = (r, s')"
      by (auto simp: locateDownloaded_def Let_def)
    from convertFile_allowed(2) [OF this p] show ?thesis .
  qed
qed

lemma downloadVideo_allowed:
  assumes "downloadVideo w url format quality (jobBase w url) s = (r, s')"
  shows "grows (allowed w url format quality) s s'"
    and "\<And>p. r = Inr p \<Longrightarrow>
           \<exists>name. startsWith name (jobBase w url) \<and> p = joinDownloads w name"
proof -
  let ?s1 = "sendProgress (Status (str ''Downloading video...'') 20) s"
  obtain r2 s2 where run:
    "runYtDlp (videoRunOf w url format quality) sendProgress ?s1 = (r2, s2)"
    by (metis surj_pair)
  have a: "grows (allowed w url format quality) s s2"
    using grows_send_then [OF _ runYtDlp_allowed [OF run videoRun_in]] by simp
  from assms run
  have c: "(s' = s2 \<and> (\<exists>e. r = Inl e))
           \<or> locateDownloaded w (jobBase w url) format s2 = (r, s')"
    by (auto simp: downloadVideo_def videoRunOf_def Let_def split: sum.splits)
  with a locateDownloaded_allowed(1) grows_trans
  show "grows (allowed w url format quality) s s'" by blast
  fix p assume "r = Inr p"
  with c have "locateDownloaded w (jobBase w url) format s2 = (Inr p, s')" by auto
  from locateDownloaded_allowed(2) [OF this]
  show "\<exists>name. startsWith name (jobBase w url) \<and> p = joinDownloads w name" by simp
qed

lemma download_allowed:
  assumes "download w url format quality (jobBase w url) s = (r, s')"
  shows "grows (allowed w url format quality) s s'"
    and "\<And>p. r = Inr p \<Longrightarrow>
           \<exists>name. startsWith name (jobBase w url) \<and> p = joinDownloads w name"
proof -
  from assms
  have c: "downloadAudio w url format (jobBase w url) s = (r, s')
           \<or> downloadVideo w url format quality (jobBase w url) s = (r, s')
           \<or> (s' = s \<and> (\<exists>e. r = Inl e))"
    by (auto simp: download_def split: if_splits)
  then show "grows (allowed w url format quality) s s'"
    using downloadAudio_allowed(1) downloadVideo_allowed(1) grows_refl by blast
  fix p assume "r = Inr p"
  with c show "\<exists>name. startsWith name (jobBase w url) \<and> p = joinDownloads w name"
    using downloadAudio_allowed(2) downloadVideo_allowed(2) by blast
qed

section \<open>The trace of a download request\<close>

lemma classify_fixed: "fromFixedSet (classify m)"
  by (simp add: classify_def fromFixedSet_def)

lemma lastUpdate_terminal: "terminal (lastUpdate w url format r s)"
  by (simp add: lastUpdate_def classify_fixed split: sum.splits)

lemma lastUpdate_allowed:
  assumes "\<And>p. r = Inr p \<Longrightarrow>
             \<exists>name. startsWith name (jobBase w url) \<and> p = joinDownloads w name"
  shows "allowed w url format quality (lastUpdate w url format r s)"
proof (cases r)
  case (Inl e)
  then show ?thesis by (simp add: lastUpdate_def classify_fixed)
next
  case (Inr p)
  from assms [OF this] obtain name where
    "startsWith name (jobBase w url)" "p = joinDownloads w name"
    by blast
  with Inr show ?thesis
    by (auto simp: lastUpdate_def classify_fixed validate_def split: sum.splits if_splits)
qed



lemma onMessage_title_failed:
  assumes "fetchTitle w url (sendProgress (Status (str ''Fetching video information...'') 5) s)
             = (Inl e, s2)"
  shows "onMessage w (DownloadRequest url format quality) s
           = sendProgress (ErrorUpdate (classify (message e))) s2"
  using assms by (simp add: onMessage_def downloadJob_def Let_def)

lemma onMessage_after_download:
  assumes "fetchTitle w url (sendProgress (Status (str ''Fetching video information...'') 5) s)
             = (Inr t, s2)"
    and "download w url format quality (jobBase w url)
           (sendProgress (Status (str ''Processing: '' @ t) 10) s2) = (r3, s3)"
  shows "onMessage w (DownloadRequest url format quality) s
           = sendProgress (lastUpdate w url format r3 s3) s3"
proof -
  have t: "t = titleOf w url" using fetchTitle_allowed(2) [OF assms(1)] by simp
  show ?thesis
    using assms t
    by (auto simp: onMessage_def downloadJob_def Let_def jobBase_def finish_def lastUpdate_def
             split: sum.splits)
qed

lemma onMessage_request_last:
  "\<exists>t s'. grows (allowed w url format quality) s s' \<and> terminal t
       \<and> allowed w url format quality t
       \<and> onMessage w (DownloadRequest url format quality) s = sendProgress t s'"
proof -
  let ?A = "allowed w url format quality"
  let ?s1 = "sendProgress (Status (str ''Fetching video information...'') 5) s"
  have g1: "grows ?A s ?s1" by (rule grows_sendProgress) simp
  obtain r2 s2 where ft: "fetchTitle w url ?s1 = (r2, s2)" by (metis surj_pair)
  have g2: "grows ?A s s2"
    using grows_trans [OF g1 fetchTitle_allowed(1) [OF ft]] .
  show ?thesis
  proof (cases r2)
    case (Inl e)
    from onMessage_title_failed [OF ft [unfolded Inl]] g2 show ?thesis
      by (intro exI [of _ "ErrorUpdate (classify (message e))"] exI [of _ s2])
         (simp add: classify_fixed)
  next
    case (Inr t)
    have t: "t = titleOf w url" using fetchTitle_allowed(2) [OF ft Inr] .
    let ?s3 = "sendProgress (Status (str ''Processing: '' @ t) 10) s2"
    have g3: "grows ?A s ?s3" using grows_then_send [OF g2] t by simp
    obtain r4 s4 where d: "download w url format quality (jobBase w url) ?s3 = (r4, s4)"
      by (metis surj_pair)
    have g4: "grows ?A s s4" using grows_trans [OF g3 download_allowed(1) [OF d]] .
    have "?A (lastUpdate w url format r4 s4)"
      using download_allowed(2) [OF d] by (rule lastUpdate_allowed)
    with onMessage_after_download [OF ft [unfolded Inr] d] g4 lastUpdate_terminal
    show ?thesis by blast
  qed
qed

lemma onMessage_request_grows:
  "grows (allowed w url format quality) s (onMessage w (DownloadRequest url format quality) s)"
  using onMessage_request_last [of w url format quality s] grows_then_send by force

lemma onMessage_request_trace:
  "\<exists>vs t. terminal t \<and> list_all (allowed w url format quality) (vs @ [t])
     \<and> emits (vs @ [t]) s (onMessage w (DownloadRequest url format quality) s)"
proof -
  from onMessage_request_last [of w url format quality s] obtain t s' where
    a: "grows (allowed w url format quality) s s'" "terminal t"
       "allowed w url format quality t"
       "onMessage w (DownloadRequest url format quality) s = sendProgress t s'"
    by blast
  from a(1) obtain vs where vs: "emits vs s s'" "list_all (allowed w url format quality) vs"
    by (auto simp: grows_emits)
  from emits_then_send [OF vs(1), of t] a vs(2) show ?thesis by auto
qed







section \<open>The job does not depend on the socket\<close>

lemma files_withOpenSocket [simp]: "files (withOpenSocket s) = files s"
  by (simp add: withOpenSocket_def)

lemma calls_withOpenSocket [simp]: "calls (withOpenSocket s) = calls s"
  by (simp add: withOpenSocket_def)

lemma sent_withOpenSocket [simp]: "sent (withOpenSocket s) = calls s"
  by (simp add: withOpenSocket_def)

lemma withOpenSocket_files_update:
  "(withOpenSocket s)\<lparr>files := F\<rparr> = withOpenSocket (s\<lparr>files := F\<rparr>)"
  by (simp add: withOpenSocket_def)

lemma sendProgress_open: "sendProgress u (withOpenSocket s) = withOpenSocket (sendProgress u s)"
  by (simp add: sendProgress_def withOpenSocket_def alwaysOpen_def Let_def)

lemma ytDlpData_open:
  "ytDlpData sendProgress c (out, err, withOpenSocket s)
     = (case ytDlpData sendProgress c (out, err, s) of
          (out', err', s') \<Rightarrow> (out', err', withOpenSocket s'))"
  by (cases c) (simp_all add: sendProgress_open split: option.splits)

lemma ytDlpFeed_open:
  "ytDlpFeed sendProgress cs (out, err, withOpenSocket s)
     = (case ytDlpFeed sendProgress cs (out, err, s) of
          (out', err', s') \<Rightarrow> (out', err', withOpenSocket s'))"
proof (induction cs arbitrary: out err s)
  case Nil
  show ?case by simp
next
  case (Cons c cs)
  obtain o1 e1 s1 where step: "ytDlpData sendProgress c (out, err, s) = (o1, e1, s1)"
    by (metis prod_cases3)
  show ?case
    by (simp add: ytDlpData_open step Cons.IH)
qed

lemma runYtDlp_open:
  "runYtDlp p sendProgress (withOpenSocket s)
     = (case runYtDlp p sendProgress s of (r, s') \<Rightarrow> (r, withOpenSocket s'))"
  by (simp add: runYtDlp_def ytDlpFeed_open Let_def withOpenSocket_files_update
           split: prod.splits)

lemma ffmpegData_open:
  "ffmpegData sendProgress c (err, withOpenSocket s)
     = (case ffmpegData sendProgress c (err, s) of (err', s') \<Rightarrow> (err', withOpenSocket s'))"
  by (cases c) (simp_all add: sendProgress_open)

lemma ffmpegFeed_open:
  "ffmpegFeed sendProgress cs (err, withOpenSocket s)
     = (case ffmpegFeed sendProgress cs (err, s) of (err', s') \<Rightarrow> (err', withOpenSocket s'))"
proof (induction cs arbitrary: err s)
  case Nil
  show ?case by simp
next
  case (Cons c cs)
  obtain e1 s1 where step: "ffmpegData sendProgress c (err, s) = (e1, s1)"
    by (metis surj_pair)
  show ?case
    by (simp add: ffmpegData_open step Cons.IH)
qed

lemma runFFmpeg_open:
  "runFFmpeg p sendProgress (withOpenSocket s)
     = (case runFFmpeg p sendProgress s of (r, s') \<Rightarrow> (r, withOpenSocket s'))"
  by (simp add: runFFmpeg_def ffmpegFeed_open Let_def withOpenSocket_files_update
           split: prod.splits)

lemma fetchTitle_open:
  "fetchTitle w url (withOpenSocket s)
     = (case fetchTitle w url s of (r, s') \<Rightarrow> (r, withOpenSocket s'))"
  by (simp add: fetchTitle_def runYtDlp_open split: option.splits prod.splits sum.splits)

lemma downloadAudio_open:
  "downloadAudio w url format base (withOpenSocket s)
     = (case downloadAudio w url format base s of (r, s') \<Rightarrow> (r, withOpenSocket s'))"
  by (simp add: downloadAudio_def Let_def sendProgress_open runYtDlp_open
           split: prod.splits sum.splits)

lemma unlink_open:
  "unlink w p (withOpenSocket s)
     = (case unlink w p s of (r, s') \<Rightarrow> (r, withOpenSocket s'))"
  by (simp add: unlink_def withOpenSocket_files_update split: option.splits)

lemma convertFile_open:
  "convertFile w base format finalPath (withOpenSocket s)
     = (case convertFile w base format finalPath s of (r, s') \<Rightarrow> (r, withOpenSocket s'))"
  by (simp add: convertFile_def Let_def sendProgress_open runFFmpeg_open unlink_open
           split: prod.splits sum.splits)

lemma locateDownloaded_open:
  "locateDownloaded w base format (withOpenSocket s)
     = (case locateDownloaded w base format s of (r, s') \<Rightarrow> (r, withOpenSocket s'))"
  by (simp add: locateDownloaded_def Let_def convertFile_open
           split: prod.splits sum.splits option.splits)

lemma downloadVideo_open:
  "downloadVideo w url format quality base (withOpenSocket s)
     = (case downloadVideo w url format quality base s of (r, s') \<Rightarrow> (r, withOpenSocket s'))"
  by (simp add: downloadVideo_def Let_def sendProgress_open runYtDlp_open locateDownloaded_open
           split: prod.splits sum.splits)

lemma download_open:
  "download w url format quality base (withOpenSocket s)
     = (case download w url format quality base s of (r, s') \<Rightarrow> (r, withOpenSocket s'))"
  by (simp add: download_def downloadAudio_open downloadVideo_open)

lemma finish_open:
  "finish w name p (withOpenSocket s)
     = (case finish w name p s of (r, s') \<Rightarrow> (r, withOpenSocket s'))"
  by (simp add: finish_def validate_def sendProgress_open split: sum.splits)

lemma downloadJob_open:
  "downloadJob w url format quality (withOpenSocket s)
     = (case downloadJob w url format quality s of (r, s') \<Rightarrow> (r, withOpenSocket s'))"
  by (simp add: downloadJob_def Let_def fetchTitle_open sendProgress_open download_open
        finish_open split: prod.splits sum.splits)

lemma onMessage_open:
  "onMessage w (DownloadRequest url format quality) (withOpenSocket s)
     = withOpenSocket (onMessage w (DownloadRequest url format quality) s)"
  by (simp add: onMessage_def Let_def sendProgress_open downloadJob_open
           split: prod.splits sum.splits)

section \<open>C10: updates handed over while the socket is not open\<close>

lemma withOpenSocket_start: "withOpenSocket (start r) = start alwaysOpen"
  by (simp add: withOpenSocket_def start_def)

lemma audio_run_open:
  "sent (onMessage (audioWorld []) (DownloadRequest demoUrl (str ''mp3'') (str ''auto''))
           (start alwaysOpen))
     = [Status (str ''Fetching video information...'') 5,
        Status (str ''Processing: Demo: Clip?'') 10,
        Status (str ''Downloading audio...'') 20,
        Progress (ParseFloat (str ''3.5'')),
        Progress (ParseFloat (str ''99.9'')),
        DownloadReady (str ''Demo Clip.mp3'') 3
          (str ''/download/1b9d6bcd-bbfd-4b2d-9b5d-ab8dfbbd4bed_httpsexamp.mp3'')]"
  by (simp add: eval_defs)

text \<open>
  Claim C10. A call of the send helper while the socket is not open changes nothing
  but the record of the call: nothing is sent, no file changes and no error is raised.
  For every download request, whatever the ready states of the socket during the run:
  the handler returns, the updates it hands to the helper end with a terminal update (a
  classified error or the download-ready message), the updates sent are exactly those
  handed over while the socket was open, in order, and the updates handed over and the
  files at the end are the same as in the run with a socket that is open throughout. So
  a job whose peer went away still runs to its terminal update, which is dropped.
\<close>

theorem closed_socket_discards:
  "(socket s (length (calls s)) \<noteq> OPEN \<longrightarrow> sendProgress u s = s\<lparr>calls := calls s @ [u]\<rparr>)
   \<and> socket (onMessage w (DownloadRequest url format quality) s) = socket s
   \<and> (\<exists>vs t. terminal t
        \<and> calls (onMessage w (DownloadRequest url format quality) s) = calls s @ vs @ [t]
        \<and> sent (onMessage w (DownloadRequest url format quality) s)
            = sent s @ deliveredFrom (socket s) (length (calls s)) (vs @ [t]))
   \<and> calls (onMessage w (DownloadRequest url format quality) s)
       = sent (onMessage w (DownloadRequest url format quality) (withOpenSocket s))
   \<and> files (onMessage w (DownloadRequest url format quality) s)
       = files (onMessage w (DownloadRequest url format quality) (withOpenSocket s))"
proof (intro conjI)
  show "socket s (length (calls s)) \<noteq> OPEN \<longrightarrow> sendProgress u s = s\<lparr>calls := calls s @ [u]\<rparr>"
    by (simp add: sendProgress_def Let_def)
  show "socket (onMessage w (DownloadRequest url format quality) s) = socket s"
    using onMessage_request_grows [of w url format quality s] by (simp add: grows_def)
  show "\<exists>vs t. terminal t
        \<and> calls (onMessage w (DownloadRequest url format quality) s) = calls s @ vs @ [t]
        \<and> sent (onMessage w (DownloadRequest url format quality) s)
            = sent s @ deliveredFrom (socket s) (length (calls s)) (vs @ [t])"
    using onMessage_request_trace [of w url format quality s]
    unfolding emits_def by blast
  show "calls (onMessage w (DownloadRequest url format quality) s)
       = sent (onMessage w (DownloadRequest url format quality) (withOpenSocket s))"
    by (simp add: onMessage_open)
  show "files (onMessage w (DownloadRequest url format quality) s)
       = files (onMessage w (DownloadRequest url format quality) (withOpenSocket s))"
    by (simp add: onMessage_open)
qed

theorem closed_socket_discards_witness:
  "calls (onMessage (audioWorld []) (DownloadRequest demoUrl (str ''mp3'') (str ''auto''))
           (start (closedFrom 2)))
     = [Status (str ''Fetching video information...'') 5,
        Status (str ''Processing: Demo: Clip?'') 10,
        Status (str ''Downloading audio...'') 20,
        Progress (ParseFloat (str ''3.5'')),
        Progress (ParseFloat (str ''99.9'')),
        DownloadReady (str ''Demo Clip.mp3'') 3
          (str ''/download/1b9d6bcd-bbfd-4b2d-9b5d-ab8dfbbd4bed_httpsexamp.mp3'')]
   \<and> sent (onMessage (audioWorld []) (DownloadRequest demoUrl (str ''mp3'') (str ''auto''))
           (start (closedFrom 2)))
     = [Status (str ''Fetching video information...'') 5,
        Status (str ''Processing: Demo: Clip?'') 10]"
proof -
  have "calls (onMessage (audioWorld []) (DownloadRequest demoUrl (str ''mp3'') (str ''auto''))
           (start (closedFrom 2)))
       = sent (onMessage (audioWorld []) (DownloadRequest demoUrl (str ''mp3'') (str ''auto''))
           (start alwaysOpen))"
    using closed_socket_discards [of "start (closedFrom 2)" "Progress (Num 0)" "audioWorld []" demoUrl
        "str ''mp3''" "str ''auto''"]
    by (simp only: withOpenSocket_start)
  moreover have "sent (onMessage (audioWorld []) (DownloadRequest demoUrl (str ''mp3'') (str ''auto''))
           (start (closedFrom 2)))
     = [Status (str ''Fetching video information...'') 5,
        Status (str ''Processing: Demo: Clip?'') 10]"
    by (simp add: eval_defs)
  ultimately show ?thesis by (simp only: audio_run_open)
qed

section \<open>C2: what the peer is sent\<close>





section \<open>C3: the extraction tool fails with "ERROR: Private video"\<close>








section \<open>C5: the files of a failed job\<close>

lemma runYtDlp_failure: "runYtDlp p cb s = (Inl e, s') \<Longrightarrow> \<exists>m. e = ProcessFailure m"
  by (auto simp: runYtDlp_def Let_def split: prod.splits if_splits)

lemma runFFmpeg_failure: "runFFmpeg p cb s = (Inl e, s') \<Longrightarrow> \<exists>m. e = ProcessFailure m"
  by (auto simp: runFFmpeg_def Let_def split: prod.splits if_splits)

lemma fetchTitle_not_empty:
  assumes "fetchTitle w url s = (Inl e, s')"
  shows "e \<noteq> EmptyArtifact"
proof (cases "mkdirError w")
  case (Some m)
  with assms show ?thesis by (auto simp: fetchTitle_def)
next
  case None
  obtain r1 s1 where run: "runYtDlp (yt_dlp w (titleArgs url)) sendProgress s = (r1, s1)"
    by (metis surj_pair)
  with assms None have "r1 = Inl e"
    by (cases r1) (auto simp: fetchTitle_def)
  with run runYtDlp_failure show ?thesis by blast
qed

lemma convertFile_not_empty:
  assumes "convertFile w base format finalPath s = (Inl e, s')"
  shows "e \<noteq> EmptyArtifact"
proof -
  let ?s1 = "sendProgress (Status (str ''Converting file...'') 80) s"
  let ?p = "ffmpeg w (ffmpegArgs finalPath (joinDownloads w (base @ str ''_converted.'' @ format)))"
  obtain r2 s2 where run: "runFFmpeg ?p sendProgress ?s1 = (r2, s2)"
    by (metis surj_pair)
  show ?thesis
  proof (cases r2)
    case (Inl e2)
    with assms run have "e = e2" by (simp add: convertFile_def Let_def)
    with run Inl runFFmpeg_failure show ?thesis by blast
  next
    case (Inr u)
    with assms run have "\<exists>m. e = StorageFailure m"
      by (auto simp: convertFile_def Let_def unlink_def split: option.splits)
    then show ?thesis by auto
  qed
qed

lemma locateDownloaded_not_empty:
  "locateDownloaded w base format s = (Inl e, s') \<Longrightarrow> e \<noteq> EmptyArtifact"
  by (auto simp: locateDownloaded_def Let_def split: sum.splits option.splits if_splits
           dest: convertFile_not_empty)

lemma downloadAudio_not_empty:
  assumes "downloadAudio w url format base s = (Inl e, s')"
  shows "e \<noteq> EmptyArtifact"
proof -
  let ?s1 = "sendProgress (Status (str ''Downloading audio...'') 20) s"
  obtain r2 s2 where run:
    "runYtDlp (yt_dlp w (audioArgs format (outputTemplate w base) url)) sendProgress ?s1 = (r2, s2)"
    by (metis surj_pair)
  with assms have "r2 = Inl e"
    by (cases r2) (auto simp: downloadAudio_def Let_def)
  with run runYtDlp_failure show ?thesis by blast
qed

lemma downloadVideo_not_empty:
  assumes "downloadVideo w url format quality base s = (Inl e, s')"
  shows "e \<noteq> EmptyArtifact"
proof -
  let ?s1 = "sendProgress (Status (str ''Downloading video...'') 20) s"
  let ?p = "yt_dlp w (videoArgs (formatSelector quality format) (outputTemplate w base) format url)"
  obtain r2 s2 where run: "runYtDlp ?p sendProgress ?s1 = (r2, s2)"
    by (metis surj_pair)
  show ?thesis
  proof (cases r2)
    case (Inl e2)
    with assms run have "e = e2" by (simp add: downloadVideo_def Let_def)
    with run Inl runYtDlp_failure show ?thesis by blast
  next
    case (Inr out)
    with assms run have "locateDownloaded w base format s2 = (Inl e, s')"
      by (simp add: downloadVideo_def Let_def)
    then show ?thesis by (rule locateDownloaded_not_empty)
  qed
qed

lemma download_not_empty:
  "download w url format quality base s = (Inl e, s') \<Longrightarrow> e \<noteq> EmptyArtifact"
  by (auto simp: download_def split: if_splits
           dest: downloadAudio_not_empty downloadVideo_not_empty)

lemma finish_empty:
  "finish w name p s = (Inl EmptyArtifact, s') \<Longrightarrow> s' = s \<and> files s p = Some []"
  by (auto simp: finish_def validate_def stat_def split: sum.splits option.splits if_splits)

lemma downloadJob_empty:
  assumes "downloadJob w url format quality s = (Inl EmptyArtifact, s')"
  shows "\<exists>p. files s' p = Some []"
proof -
  obtain r1 s1 where t: "fetchTitle w url s = (r1, s1)" by (metis surj_pair)
  have "r1 \<noteq> Inl EmptyArtifact" using t fetchTitle_not_empty by blast
  with assms t obtain videoTitle where r1: "r1 = Inr videoTitle"
    by (cases r1) (auto simp: downloadJob_def)
  let ?s2 = "sendProgress (Status (str ''Processing: '' @ videoTitle) 10) s1"
  let ?base = "workingName (uuidv4 w) (sanitizeUrl url)"
  obtain r3 s3 where d: "download w url format quality ?base ?s2 = (r3, s3)"
    by (metis surj_pair)
  have "r3 \<noteq> Inl EmptyArtifact" using d download_not_empty by blast
  with assms t r1 d obtain finalPath where r3: "r3 = Inr finalPath"
    by (cases r3) (auto simp: downloadJob_def Let_def)
  with assms t r1 d
  have "finish w (sanitizeTitle videoTitle @ str ''.'' @ format) finalPath s3
          = (Inl EmptyArtifact, s')"
    by (simp add: downloadJob_def Let_def)
  from finish_empty [OF this] show ?thesis by blast
qed

lemma fetchTitle_ok:
  assumes "mkdirError w = None" and "exitCode (yt_dlp w (titleArgs url)) = Some 0"
  shows "\<exists>t s'. fetchTitle w url s = (Inr t, s')
            \<and> files s' = effect (yt_dlp w (titleArgs url)) (files s)"
proof -
  obtain r s1 where run: "runYtDlp (yt_dlp w (titleArgs url)) sendProgress s = (r, s1)"
    by (metis surj_pair)
  from runYtDlp_emits(3) [OF run assms(2)] obtain out where "r = Inr out" by blast
  with run assms(1) runYtDlp_emits(2) [OF run] show ?thesis
    by (simp add: fetchTitle_def)
qed

lemma download_run_fails:
  assumes "exitCode p \<noteq> Some 0"
  shows "\<exists>m s'. runYtDlp p sendProgress s = (Inl (ProcessFailure m), s')
            \<and> files s' = effect p (files s)"
proof -
  obtain r s1 where run: "runYtDlp p sendProgress s = (r, s1)" by (metis surj_pair)
  from runYtDlp_emits(4) [OF run assms] runYtDlp_emits(2) [OF run] run show ?thesis
    by auto
qed

text \<open>
  Claim C5, as stated: after a job has failed, no file it created remains in the
  staging directory. It fails: the download run below leaves an audio file of no bytes,
  validation fails, the job ends with the error update, and the file is still there.
\<close>

theorem failed_job_keeps_files_counterexample:
  "calls (onMessage emptyWorld (DownloadRequest demoUrl (str ''mp3'') (str ''auto''))
          (start alwaysOpen))
     = [Status (str ''Fetching video information...'') 5,
        Status (str ''Processing: Demo: Clip?'') 10,
        Status (str ''Downloading audio...'') 20,
        Progress (ParseFloat (str ''3.5'')),
        Progress (ParseFloat (str ''99.9'')),
        ErrorUpdate msgGeneric]
   \<and> files (onMessage emptyWorld (DownloadRequest demoUrl (str ''mp3'') (str ''auto''))
          (start alwaysOpen))
       (str ''/srv/downloads/1b9d6bcd-bbfd-4b2d-9b5d-ab8dfbbd4bed_httpsexamp.mp3'') = Some []"
  by (simp add: eval_defs)

text \<open>
  Claim C5, amended. A failed job releases nothing. The \<^verbatim>\<open>catch\<close> block leaves the files
  as the body of the \<^verbatim>\<open>try\<close> left them. When validation fails because the final file is
  empty, the empty file is still in the staging directory after the job. When the title
  run succeeds and the download run (audio or video) exits with a status other than 0,
  the job fails with the process failure and the files are exactly what the two runs
  left.
\<close>

theorem failed_job_keeps_files:
  "files (onMessage w (DownloadRequest url format quality) s)
     = files (snd (downloadJob w url format quality
                (sendProgress (Status (str ''Fetching video information...'') 5) s)))
   \<and> (fst (downloadJob w url format quality s) = Inl EmptyArtifact
      \<longrightarrow> (\<exists>p. files (snd (downloadJob w url format quality s)) p = Some []))
   \<and> (mkdirError w = None \<and> exitCode (yt_dlp w (titleArgs url)) = Some 0
      \<and> (format = str ''mp3'' \<or> format = str ''m4a'')
      \<and> exitCode (yt_dlp w (audioArgs format
             (outputTemplate w (workingName (uuidv4 w) (sanitizeUrl url))) url)) \<noteq> Some 0
      \<longrightarrow> (\<exists>m. fst (downloadJob w url format quality s) = Inl (ProcessFailure m))
          \<and> files (snd (downloadJob w url format quality s))
              = effect (yt_dlp w (audioArgs format
                   (outputTemplate w (workingName (uuidv4 w) (sanitizeUrl url))) url))
                  (effect (yt_dlp w (titleArgs url)) (files s)))
   \<and> (mkdirError w = None \<and> exitCode (yt_dlp w (titleArgs url)) = Some 0
      \<and> (format = str ''mp4'' \<or> format = str ''webm'')
      \<and> exitCode (yt_dlp w (videoArgs (formatSelector quality format)
             (outputTemplate w (workingName (uuidv4 w) (sanitizeUrl url))) format url)) \<noteq> Some 0
      \<longrightarrow> (\<exists>m. fst (downloadJob w url format quality s) = Inl (ProcessFailure m))
          \<and> files (snd (downloadJob w url format quality s))
              = effect (yt_dlp w (videoArgs (formatSelector quality format)
                   (outputTemplate w (workingName (uuidv4 w) (sanitizeUrl url))) format url))
                  (effect (yt_dlp w (titleArgs url)) (files s)))"
proof (intro conjI impI)
  show "files (onMessage w (DownloadRequest url format quality) s)
     = files (snd (downloadJob w url format quality
                (sendProgress (Status (str ''Fetching video information...'') 5) s)))"
    by (simp add: onMessage_def Let_def files_sendProgress split: prod.splits sum.splits)
next
  assume "fst (downloadJob w url format quality s) = Inl EmptyArtifact"
  then obtain s' where "downloadJob w url format quality s = (Inl EmptyArtifact, s')"
    by (cases "downloadJob w url format quality s") auto
  with downloadJob_empty show "\<exists>p. files (snd (downloadJob w url format quality s)) p = Some []"
    by fastforce
next
  let ?base = "workingName (uuidv4 w) (sanitizeUrl url)"
  let ?pa = "yt_dlp w (audioArgs format (outputTemplate w ?base) url)"
  assume a: "mkdirError w = None \<and> exitCode (yt_dlp w (titleArgs url)) = Some 0
      \<and> (format = str ''mp3'' \<or> format = str ''m4a'') \<and> exitCode ?pa \<noteq> Some 0"
  from a have "\<exists>t s1. fetchTitle w url s = (Inr t, s1)
       \<and> files s1 = effect (yt_dlp w (titleArgs url)) (files s)"
    by (intro fetchTitle_ok) simp_all
  then obtain t s1 where
    t: "fetchTitle w url s = (Inr t, s1)"
       "files s1 = effect (yt_dlp w (titleArgs url)) (files s)"
    by blast
  let ?s2 = "sendProgress (Status (str ''Processing: '' @ t) 10) s1"
  let ?s3 = "sendProgress (Status (str ''Downloading audio...'') 20) ?s2"
  from a have "exitCode ?pa \<noteq> Some 0" by simp
  from download_run_fails [OF this, of ?s3] obtain m s4 where
    r: "runYtDlp ?pa sendProgress ?s3 = (Inl (ProcessFailure m), s4)"
       "files s4 = effect ?pa (files ?s3)"
    by blast
  have j: "downloadJob w url format quality s = (Inl (ProcessFailure m), s4)"
    using a t(1) r(1) by (auto simp: downloadJob_def Let_def download_def downloadAudio_def)
  show "\<exists>m. fst (downloadJob w url format quality s) = Inl (ProcessFailure m)"
    using j by simp
  show "files (snd (downloadJob w url format quality s))
          = effect ?pa (effect (yt_dlp w (titleArgs url)) (files s))"
    using j r(2) t(2) by (simp add: files_sendProgress)
next
  let ?base = "workingName (uuidv4 w) (sanitizeUrl url)"
  let ?pv = "yt_dlp w (videoArgs (formatSelector quality format) (outputTemplate w ?base) format url)"
  assume a: "mkdirError w = None \<and> exitCode (yt_dlp w (titleArgs url)) = Some 0
      \<and> (format = str ''mp4'' \<or> format = str ''webm'') \<and> exitCode ?pv \<noteq> Some 0"
  then have video: "format \<noteq> str ''mp3''" "format \<noteq> str ''m4a''"
    by (auto simp: str_def)
  from a have "\<exists>t s1. fetchTitle w url s = (Inr t, s1)
       \<and> files s1 = effect (yt_dlp w (titleArgs url)) (files s)"
    by (intro fetchTitle_ok) simp_all
  then obtain t s1 where
    t: "fetchTitle w url s = (Inr t, s1)"
       "files s1 = effect (yt_dlp w (titleArgs url)) (files s)"
    by blast
  let ?s2 = "sendProgress (Status (str ''Processing: '' @ t) 10) s1"
  let ?s3 = "sendProgress (Status (str ''Downloading video...'') 20) ?s2"
  from a have "exitCode ?pv \<noteq> Some 0" by simp
  from download_run_fails [OF this, of ?s3] obtain m s4 where
    r: "runYtDlp ?pv sendProgress ?s3 = (Inl (ProcessFailure m), s4)"
       "files s4 = effect ?pv (files ?s3)"
    by blast
  have j: "downloadJob w url format quality s = (Inl (ProcessFailure m), s4)"
    using a video t(1) r(1)
    by (auto simp: downloadJob_def Let_def download_def downloadVideo_def)
  show "\<exists>m. fst (downloadJob w url format quality s) = Inl (ProcessFailure m)"
    using j by simp
  show "files (snd (downloadJob w url format quality s))
          = effect ?pv (effect (yt_dlp w (titleArgs url)) (files s))"
    using j r(2) t(2) by (simp add: files_sendProgress)
qed

theorem failed_job_keeps_files_witness:
  "fst (downloadJob emptyWorld demoUrl (str ''mp3'') (str ''auto'') (start alwaysOpen))
     = Inl EmptyArtifact
   \<and> (\<exists>p. files (snd (downloadJob emptyWorld demoUrl (str ''mp3'') (str ''auto'')
                        (start alwaysOpen))) p = Some [])"
proof -
  have e: "fst (downloadJob emptyWorld demoUrl (str ''mp3'') (str ''auto'') (start alwaysOpen))
             = Inl EmptyArtifact"
    by (simp add: eval_defs)
  with failed_job_keeps_files [of emptyWorld demoUrl "str ''mp3''" "str ''auto''"
      "start alwaysOpen"]
  show ?thesis by blast
qed

end
